theory Spec2Isabelle
  imports Complex_Main
begin

section \<open>The mutable audio buffer of pydub (\<^verbatim>\<open>pydub/audio_buffer.py\<close>)\<close>

text \<open>
  The class \<^verbatim>\<open>AudioBuffer\<close> keeps a two-dimensional numpy array of float samples
  (frames by channels) and three format fields. Its methods mutate the array in place and
  return \<^verbatim>\<open>self\<close>; here each method takes the state of the object and gives back the
  state it leaves behind, together with the way the call ended.

  Numbers. Python integers are \<^typ>\<open>int\<close>. A Python float (IEEE-754 binary64) is
  the \<^typ>\<open>real\<close> it denotes. Where a float decides a frame index or a length
  (\<^verbatim>\<open>frame_count(ms)\<close>, \<^verbatim>\<open>__len__\<close>), every operation is rounded to binary64
  (\<open>binary64\<close> below); the arithmetic on the sample values themselves is the exact one.
  Infinities, NaN, overflow and subnormal numbers are not part of this development.
\<close>

subsection \<open>Data\<close>

datatype py_error = TypeError | ValueError | ZeroDivisionError

text \<open>
  The immutable segment is a collaborator; of it the buffer uses the fields
  \<^verbatim>\<open>sample_width\<close>, \<^verbatim>\<open>frame_rate\<close>, \<^verbatim>\<open>channels\<close>, the flat
  integer sample array of \<^verbatim>\<open>get_array_of_samples()\<close>, and the keyword constructor.
\<close>

record audio_segment =
  seg_sample_width :: nat
  seg_frame_rate :: int
  seg_channels :: nat
  seg_samples :: "int list"

text \<open>
  \<^verbatim>\<open>_data\<close> is the list of its rows (one row per frame). The shape of the numpy array
  is \<open>(length (data b), channels b)\<close>: the constructor reshapes to
  \<^verbatim>\<open>(-1, self.channels)\<close>, which is the invariant \<open>wf_buffer\<close>.
\<close>

record audio_buffer =
  sample_width :: nat
  frame_rate :: int
  channels :: nat
  data :: "real list list"

definition wf_buffer :: "audio_buffer \<Rightarrow> bool" where
  "wf_buffer b \<longleftrightarrow> 0 < channels b \<and> list_all (\<lambda>row. length row = channels b) (data b)"

text \<open>
  A method call either returns \<^verbatim>\<open>self\<close> or raises; in both cases the object is left
  in some state, which the outcome carries.
\<close>

datatype outcome = Returned audio_buffer | Raised py_error audio_buffer

fun final_state :: "outcome \<Rightarrow> audio_buffer" where
  "final_state (Returned b) = b"
| "final_state (Raised err b) = b"

subsection \<open>Python numbers\<close>

text \<open>\<^verbatim>\<open>int(x)\<close> on a float truncates towards zero.\<close>

definition py_int :: "real \<Rightarrow> int" where
  "py_int x = (if 0 \<le> x then \<lfloor>x\<rfloor> else \<lceil>x\<rceil>)"

text \<open>\<^verbatim>\<open>round(x)\<close> on a float gives the nearest integer, a tie going to the even one.\<close>

definition py_round :: "real \<Rightarrow> int" where
  "py_round x =
     (let f = \<lfloor>x\<rfloor>; d = x - of_int f
      in if d < 1 / 2 then f
         else if 1 / 2 < d then f + 1
         else if even f then f else f + 1)"

text \<open>
  Rounding to binary64, to the nearest and a tie to the even mantissa: a number other than
  zero with \<open>2 ^ e \<le> \<bar>x\<bar> < 2 ^ (e + 1)\<close> is rounded to a multiple of
  \<open>2 ^ (e - 52)\<close> (the exponent range is taken as unbounded).
\<close>

definition binary64 :: "real \<Rightarrow> real" where
  "binary64 x =
     (if x = 0 then 0
      else let ulp = power_int 2 (\<lfloor>log 2 \<bar>x\<bar>\<rfloor> - 52)
           in of_int (py_round (x / ulp)) * ulp)"

text \<open>
  The arguments \<^verbatim>\<open>start\<close>, \<^verbatim>\<open>end\<close>, \<^verbatim>\<open>duration\<close> and
  \<^verbatim>\<open>gain_during_overlay\<close> are a number or \<^verbatim>\<open>None\<close>. \<^verbatim>\<open>not v\<close> holds for
  \<^verbatim>\<open>None\<close> and for zero; arithmetic with \<^verbatim>\<open>None\<close> raises \<^verbatim>\<open>TypeError\<close>.
  A sum or difference of milliseconds is kept exact here and is rounded where
  \<^verbatim>\<open>frame_count\<close> makes a float of it.
\<close>

definition falsy :: "real option \<Rightarrow> bool" where
  "falsy v = (case v of None \<Rightarrow> True | Some x \<Rightarrow> x = 0)"

fun py_sub :: "real option \<Rightarrow> real option \<Rightarrow> py_error + real" where
  "py_sub (Some a) (Some b) = Inr (a - b)"
| "py_sub _ _ = Inl TypeError"

fun py_add :: "real option \<Rightarrow> real option \<Rightarrow> py_error + real" where
  "py_add (Some a) (Some b) = Inr (a + b)"
| "py_add _ _ = Inl TypeError"

subsection \<open>\<^verbatim>\<open>frame_count\<close> and \<^verbatim>\<open>__len__\<close>\<close>

text \<open>
  \<^verbatim>\<open>ms * (self.frame_rate / 1000.0)\<close>: the integer frame rate and the milliseconds
  become floats, the quotient is rounded, and then the product.
\<close>

definition frame_count :: "audio_buffer \<Rightarrow> real option \<Rightarrow> real" where
  "frame_count self ms =
     (case ms of
        Some m \<Rightarrow>
          binary64 (binary64 m * binary64 (binary64 (of_int (frame_rate self)) / 1000))
      | None \<Rightarrow> of_nat (length (data self)))"

text \<open>
  The method \<^verbatim>\<open>__len__\<close>, \<^verbatim>\<open>round(1000 * (self.frame_count() / self.frame_rate))\<close>:
  the division of the two integers raises when \<^verbatim>\<open>frame_rate\<close> is zero and is rounded
  to a float otherwise, and so is the product with 1000.
\<close>

definition dunder_len :: "audio_buffer \<Rightarrow> py_error + int" where
  "dunder_len self =
     (if frame_rate self = 0 then Inl ZeroDivisionError
      else Inr (py_round (binary64
                  (1000 * binary64 (frame_count self None / of_int (frame_rate self))))))"

text \<open>
  The builtin \<^verbatim>\<open>len(self)\<close>, as \<^verbatim>\<open>fade_out\<close> calls it: Python refuses a negative
  result of \<^verbatim>\<open>__len__\<close> with \<^verbatim>\<open>ValueError\<close>.
\<close>

definition py_len :: "audio_buffer \<Rightarrow> py_error + int" where
  "py_len self =
     (case dunder_len self of
        Inl err \<Rightarrow> Inl err
      | Inr n \<Rightarrow> if n < 0 then Inl ValueError else Inr n)"

subsection \<open>Slices and in-place arithmetic of numpy\<close>

text \<open>
  A slice bound of Python: a negative bound counts from the end, and every bound is cut
  to the length.
\<close>

definition slice_index :: "nat \<Rightarrow> int \<Rightarrow> nat" where
  "slice_index n i = (if i < 0 then nat (max (i + int n) 0) else min (nat i) n)"

definition py_slice :: "'a list \<Rightarrow> int \<Rightarrow> int \<Rightarrow> 'a list" where
  "py_slice xs i j =
     (let lo = slice_index (length xs) i; hi = slice_index (length xs) j
      in take (hi - lo) (drop lo xs))"

text \<open>Writing the rows \<open>ys\<close> (as many as the slice has) back through the view.\<close>

definition slice_store :: "'a list \<Rightarrow> int \<Rightarrow> int \<Rightarrow> 'a list \<Rightarrow> 'a list" where
  "slice_store xs i j ys =
     (let lo = slice_index (length xs) i; hi = slice_index (length xs) j
      in take lo xs @ ys @ drop (lo + (hi - lo)) xs)"

text \<open>
  Broadcasting an operand of shape \<open>(b, c')\<close> to the shape \<open>(a, c)\<close> of the view it is
  combined into: each dimension must agree or be 1 in the operand, and a dimension of 1 is
  repeated.
\<close>

definition stretch :: "nat \<Rightarrow> nat \<Rightarrow> 'a list \<Rightarrow> 'a list" where
  "stretch want have xs = (if have = want then xs else concat (map (replicate want) xs))"

definition broadcast :: "nat \<Rightarrow> nat \<Rightarrow> nat \<times> nat \<times> real list list \<Rightarrow> py_error + real list list" where
  "broadcast a c operand =
     (case operand of (b, c', rows) \<Rightarrow>
        if (b = a \<or> b = 1) \<and> (c' = c \<or> c' = 1)
        then Inr (stretch a b (map (stretch c c') rows))
        else Inl ValueError)"

text \<open>
  \<^verbatim>\<open>xs[i:j] op= operand\<close> on an array \<open>xs\<close> with \<open>c\<close> columns, for an elementwise
  operation \<open>f\<close>.
\<close>

definition inplace ::
  "(real \<Rightarrow> real \<Rightarrow> real) \<Rightarrow> nat \<Rightarrow> real list list \<Rightarrow> int \<Rightarrow> int \<Rightarrow>
     nat \<times> nat \<times> real list list \<Rightarrow> py_error + real list list" where
  "inplace f c xs i j operand =
     (let view = py_slice xs i j
      in case broadcast (length view) c operand of
           Inl err \<Rightarrow> Inl err
         | Inr rows \<Rightarrow> Inr (slice_store xs i j (map2 (map2 f) view rows)))"

text \<open>\<^verbatim>\<open>xs[i:j] *= k\<close> for a scalar \<open>k\<close>.\<close>

definition inplace_scale :: "real list list \<Rightarrow> int \<Rightarrow> int \<Rightarrow> real \<Rightarrow> real list list" where
  "inplace_scale xs i j k = slice_store xs i j (map (map (\<lambda>x. x * k)) (py_slice xs i j))"

text \<open>
  \<^verbatim>\<open>np.linspace(a, b, num)\<close> and \<^verbatim>\<open>np.logspace(a, b, num)\<close> of numpy, with the
  defaults \<^verbatim>\<open>endpoint=True\<close> and \<^verbatim>\<open>base=10.0\<close>: \<open>num\<close> evenly spaced points from
  \<open>a\<close> to \<open>b\<close> (the single point \<open>a\<close> when \<open>num = 1\<close>), and ten to the power of each.
\<close>

definition linspace :: "real \<Rightarrow> real \<Rightarrow> nat \<Rightarrow> real list" where
  "linspace a b num =
     map (\<lambda>k. if num = 1 then a else a + of_nat k * ((b - a) / of_nat (num - 1))) [0..<num]"

definition logspace :: "real \<Rightarrow> real \<Rightarrow> nat \<Rightarrow> real list" where
  "logspace a b num = map (\<lambda>y. 10 powr y) (linspace a b num)"

subsection \<open>\<^verbatim>\<open>fade\<close>, \<^verbatim>\<open>fade_out\<close>, \<^verbatim>\<open>fade_in\<close>\<close>

text \<open>Lines 80 to 83: filling in the blanks, in milliseconds.\<close>

definition fill_blanks ::
  "real option \<Rightarrow> real option \<Rightarrow> real option \<Rightarrow> py_error + real \<times> real" where
  "fill_blanks start end' duration =
     (case (case start of
              None \<Rightarrow> py_sub end' duration
            | Some s \<Rightarrow> if s = 0 then py_sub end' duration else Inr s) of
        Inl err \<Rightarrow> Inl err
      | Inr s \<Rightarrow>
          (case (case end' of
                   None \<Rightarrow> py_add (Some s) duration
                 | Some e \<Rightarrow> if e = 0 then py_add (Some s) duration else Inr e) of
             Inl err \<Rightarrow> Inl err
           | Inr e \<Rightarrow> Inr (s, e)))"

text \<open>Lines 84 and 85: \<^verbatim>\<open>max(int(min(self.frame_count(ms), self.frame_count())), 0)\<close>.\<close>

definition clamp_frame :: "audio_buffer \<Rightarrow> real \<Rightarrow> int" where
  "clamp_frame self ms =
     max (py_int (min (frame_count self (Some ms)) (frame_count self None))) 0"

text \<open>
  Lines 86 to 96, on the frame indices. \<^verbatim>\<open>.repeat(c).reshape(-1, c)\<close> turns each gain
  into a row of \<open>c\<close> copies; with \<open>c = 0\<close> the reshape raises.
\<close>

definition gain_profile :: "nat \<Rightarrow> real \<Rightarrow> real \<Rightarrow> nat \<Rightarrow> real list list" where
  "gain_profile c from_gain to_gain duration =
     map (replicate c) (logspace (from_gain / 20) (to_gain / 20) duration)"

definition apply_fade :: "audio_buffer \<Rightarrow> real \<Rightarrow> real \<Rightarrow> int \<Rightarrow> int \<Rightarrow> outcome" where
  "apply_fade self to_gain from_gain start end' =
     (let duration = end' - start
      in if duration > 0 then
           (if channels self = 0 then Raised ValueError self
            else case inplace (*) (channels self) (data self) start end'
                        (nat duration, channels self,
                         gain_profile (channels self) from_gain to_gain (nat duration)) of
                   Inl err \<Rightarrow> Raised err self
                 | Inr d \<Rightarrow> Returned (self\<lparr>data := d\<rparr>))
         else Returned self)"

text \<open>The part of \<^verbatim>\<open>fade\<close> after the blanks are filled: conversion, clamping, ramp.\<close>

definition fade_ms :: "audio_buffer \<Rightarrow> real \<Rightarrow> real \<Rightarrow> real \<Rightarrow> real \<Rightarrow> outcome" where
  "fade_ms self to_gain from_gain s e =
     apply_fade self to_gain from_gain (clamp_frame self s) (clamp_frame self e)"

definition fade ::
  "audio_buffer \<Rightarrow> real \<Rightarrow> real \<Rightarrow> real option \<Rightarrow> real option \<Rightarrow> real option \<Rightarrow> outcome" where
  "fade self to_gain from_gain start end' duration =
     (case fill_blanks start end' duration of
        Inl err \<Rightarrow> Raised err self
      | Inr (s, e) \<Rightarrow> fade_ms self to_gain from_gain s e)"

text \<open>\<^verbatim>\<open>self.fade(to_gain=-120, duration=duration, end=len(self)+1)\<close>\<close>

definition fade_out :: "audio_buffer \<Rightarrow> real option \<Rightarrow> outcome" where
  "fade_out self duration =
     (case py_len self of
        Inl err \<Rightarrow> Raised err self
      | Inr n \<Rightarrow> fade self (- 120) 0 None (Some (of_int (n + 1))) duration)"

text \<open>\<^verbatim>\<open>self.fade(from_gain=-120, duration=duration, start=0)\<close>\<close>

definition fade_in :: "audio_buffer \<Rightarrow> real option \<Rightarrow> outcome" where
  "fade_in self duration = fade self 0 (- 120) (Some 0) None duration"

subsection \<open>Construction from a segment, and \<^verbatim>\<open>segment\<close>\<close>

text \<open>\<^verbatim>\<open>reshape(-1, c)\<close> on a flat array whose size is a multiple of \<open>c > 0\<close>.\<close>

function reshape_rows :: "nat \<Rightarrow> 'a list \<Rightarrow> 'a list list" where
  "reshape_rows c xs = (if c = 0 \<or> xs = [] then [] else take c xs # reshape_rows c (drop c xs))"
  by pat_completeness auto
termination
  by (relation "measure (\<lambda>(c, xs). length xs)") auto

declare reshape_rows.simps [simp del]

text \<open>
  \<^verbatim>\<open>AudioBuffer(seg)\<close> for an \<^verbatim>\<open>AudioSegment\<close> (lines 24 to 36). The sample array of
  the segment has integer items of \<^verbatim>\<open>sample_width\<close> bytes, so each sample is divided
  by \<open>2 ^ (8 * sample_width - 1)\<close> (a shift by a negative count raises); the reshape
  raises unless the samples fill whole frames.
\<close>

definition AudioBuffer_init :: "audio_segment \<Rightarrow> py_error + audio_buffer" where
  "AudioBuffer_init seg =
     (if seg_sample_width seg = 0 then Inl ValueError
      else
        let scaled = map (\<lambda>x. of_int x / 2 ^ (seg_sample_width seg * 8 - 1)) (seg_samples seg)
        in if seg_channels seg = 0 \<or> length scaled mod seg_channels seg \<noteq> 0
           then Inl ValueError
           else Inr \<lparr>sample_width = seg_sample_width seg,
                     frame_rate = seg_frame_rate seg,
                     channels = seg_channels seg,
                     data = reshape_rows (seg_channels seg) scaled\<rparr>)"

text \<open>
  \<^verbatim>\<open>.astype(np.int16)\<close> truncates towards zero; a value outside the 16-bit range is
  not saturated: within the 32-bit range its low 16 bits are kept, beyond it the result
  is 0 (the cast of numpy on x86-64).
\<close>

definition astype_int16 :: "real \<Rightarrow> int" where
  "astype_int16 x =
     (let k = py_int x
      in if - (2 ^ 31) \<le> k \<and> k < 2 ^ 31 then signed_take_bit 15 k else 0)"

definition segment :: "audio_buffer \<Rightarrow> audio_segment" where
  "segment self =
     \<lparr>seg_sample_width = sample_width self,
      seg_frame_rate = frame_rate self,
      seg_channels = channels self,
      seg_samples = concat (map (map (\<lambda>x. astype_int16 (x * 32768))) (data self))\<rparr>"

subsection \<open>\<^verbatim>\<open>overlay\<close>\<close>

text \<open>
  What is overlaid: a segment, another buffer, or the very buffer that is written to
  (then the right-hand side of the addition reads the array as the scaling left it).
\<close>

datatype overlay_source = Segment audio_segment | Buffer audio_buffer | Self

text \<open>
  Lines 137 and 138: a truthy \<^verbatim>\<open>gain_during_overlay\<close> scales the range in place by
  \<open>10 ** (gain / 20)\<close>.
\<close>

definition duck :: "audio_buffer \<Rightarrow> int \<Rightarrow> int \<Rightarrow> real option \<Rightarrow> audio_buffer" where
  "duck self start end' gain_during_overlay =
     (case gain_during_overlay of
        None \<Rightarrow> self
      | Some g \<Rightarrow>
          if g = 0 then self
          else self\<lparr>data := inplace_scale (data self) start end' (10 powr (g / 20))\<rparr>)"

text \<open>
  Lines 133 to 142, with \<open>buf = None\<close> standing for \<^verbatim>\<open>buf is self\<close>. The position is
  truncated to a frame index and is not clamped from below; numpy reads a negative slice
  bound from the end of the array.
\<close>

definition mix :: "audio_buffer \<Rightarrow> audio_buffer option \<Rightarrow> real \<Rightarrow> real option \<Rightarrow> outcome" where
  "mix self buf position gain_during_overlay =
     (let start = py_int (frame_count self (Some position));
          m = (case buf of None \<Rightarrow> frame_count self None | Some b \<Rightarrow> frame_count b None);
          end' = py_int (min (of_int start + m) (frame_count self None))
      in if end' > start then
           (let self1 = duck self start end' gain_during_overlay;
                src = (case buf of None \<Rightarrow> self1 | Some b \<Rightarrow> b);
                rows = py_slice (data src) 0 (end' - start)
            in case inplace (+) (channels self) (data self1) start end'
                      (length rows, channels src, rows) of
                 Inl err \<Rightarrow> Raised err self1
               | Inr d \<Rightarrow> Returned (self1\<lparr>data := d\<rparr>))
         else Returned self)"

text \<open>
  \<^verbatim>\<open>overlay\<close>. The methods \<^verbatim>\<open>set_channels\<close> and \<^verbatim>\<open>set_frame_rate\<close> of the
  segment are parameters.
\<close>

definition overlay ::
  "(audio_segment \<Rightarrow> nat \<Rightarrow> audio_segment) \<Rightarrow> (audio_segment \<Rightarrow> int \<Rightarrow> audio_segment) \<Rightarrow>
     audio_buffer \<Rightarrow> overlay_source \<Rightarrow> real \<Rightarrow> real option \<Rightarrow> outcome" where
  "overlay set_channels set_frame_rate self seg position gain_during_overlay =
     (case seg of
        Segment sg \<Rightarrow>
          (let sg1 = (if seg_channels sg \<noteq> channels self
                      then set_channels sg (channels self) else sg);
               sg2 = (if seg_frame_rate sg1 \<noteq> frame_rate self
                      then set_frame_rate sg1 (frame_rate self) else sg1)
           in case AudioBuffer_init sg2 of
                Inl err \<Rightarrow> Raised err self
              | Inr buf \<Rightarrow> mix self (Some buf) position gain_during_overlay)
      | Buffer buf \<Rightarrow> mix self (Some buf) position gain_during_overlay
      | Self \<Rightarrow> mix self None position gain_during_overlay)"

subsection \<open>What a method leaves alone\<close>

text \<open>
  The three format fields are the same, and so is the shape of the sample array: the
  same number of rows, each of the same length.
\<close>

definition same_format_and_shape :: "audio_buffer \<Rightarrow> audio_buffer \<Rightarrow> bool" where
  "same_format_and_shape before after \<longleftrightarrow>
     channels after = channels before \<and> frame_rate after = frame_rate before
     \<and> sample_width after = sample_width before
     \<and> map length (data after) = map length (data before)"

section \<open>Properties\<close>

subsection \<open>Truncation and rounding\<close>

lemma py_int_of_int [simp]: "py_int (of_int k) = k"
  by (simp add: py_int_def)

lemma py_int_of_nat [simp]: "py_int (of_nat k) = int k"
  by (simp add: py_int_def)

lemma py_int_numeral [simp]:
  "py_int 0 = 0" "py_int 1 = 1" "py_int (numeral k) = numeral k"
  "py_int (- 1) = - 1" "py_int (- numeral k) = - numeral k"
  using py_int_of_int [of "- 1"] py_int_of_int [of "- numeral k"]
  by (simp_all add: py_int_def)

lemma py_int_clamp:
  "max (py_int (min x (of_nat n))) 0 = max 0 (min (int n) (py_int x))"
  unfolding py_int_def by (auto simp: min_def max_def le_floor_iff floor_le_iff ceiling_le_iff le_ceiling_iff; linarith)

lemma py_round_of_int: "py_round (of_int k) = k"
  by (simp add: py_round_def)

lemma binary64_eq:
  assumes "power_int 2 e \<le> \<bar>x\<bar>" "\<bar>x\<bar> < power_int 2 (e + 1)"
  shows "binary64 x = of_int (py_round (x / power_int 2 (e - 52))) * power_int 2 (e - 52)"
proof -
  have pos: "0 < \<bar>x\<bar>"
    using assms(1) by (smt (verit) zero_less_power_int)
  have p1: "(2::real) powr real_of_int e = power_int 2 e"
    by (rule powr_real_of_int') simp_all
  have p2: "(2::real) powr real_of_int (e + 1) = power_int 2 (e + 1)"
    by (rule powr_real_of_int') simp_all
  have "\<lfloor>log 2 \<bar>x\<bar>\<rfloor> = e"
    using pos assms unfolding p1 [symmetric] p2 [symmetric]
    by (subst floor_log_eq_powr_iff) simp_all
  with pos show ?thesis
    by (simp add: binary64_def Let_def)
qed

lemma binary64_of_int:
  assumes "\<bar>i\<bar> < 2 ^ 53"
  shows "binary64 (of_int i) = of_int i"
proof (cases "i = 0")
  case True
  then show ?thesis by (simp add: binary64_def)
next
  case False
  define e where "e = \<lfloor>log 2 \<bar>real_of_int i\<bar>\<rfloor>"
  have pos: "0 < \<bar>real_of_int i\<bar>" and ge1: "1 \<le> \<bar>real_of_int i\<bar>"
    using False by simp_all
  have lt: "\<bar>real_of_int i\<bar> < 2 ^ 53"
    using assms by (metis of_int_abs of_int_less_numeral_power_cancel_iff)
  have bnd: "(2::real) powr of_int e \<le> \<bar>real_of_int i\<bar>"
    "\<bar>real_of_int i\<bar> < 2 powr of_int (e + 1)"
    using floor_log_eq_powr_iff [of "\<bar>real_of_int i\<bar>" 2 e] pos by (simp_all add: e_def)
  have e0: "0 \<le> e"
  proof (rule ccontr)
    assume "\<not> 0 \<le> e"
    then have "real_of_int (e + 1) \<le> 0" by simp
    then have "(2::real) powr of_int (e + 1) \<le> 2 powr 0"
      by (intro powr_mono) simp_all
    with bnd(2) ge1 show False by simp
  qed
  have e52: "e \<le> 52"
  proof (rule ccontr)
    assume "\<not> e \<le> 52"
    then have "real_of_int 53 \<le> real_of_int e" by simp
    then have "(2::real) powr of_int 53 \<le> 2 powr of_int e"
      by (intro powr_mono) simp_all
    moreover have "(2::real) powr of_int 53 = 2 ^ 53"
      by simp
    ultimately show False using bnd(1) lt by simp
  qed
  define k where "k = nat (52 - e)"
  have ulp: "power_int (2::real) (e - 52) = inverse (2 ^ k)"
  proof -
    have "e - 52 = - int k" using e52 by (simp add: k_def)
    then show ?thesis by (simp add: power_int_minus)
  qed
  have "real_of_int i / power_int 2 (e - 52) = of_int (i * 2 ^ k)"
    by (simp add: ulp divide_inverse)
  then have "py_round (real_of_int i / power_int 2 (e - 52)) = i * 2 ^ k"
    by (simp only: py_round_of_int)
  then have "binary64 (of_int i) = of_int (i * 2 ^ k) * inverse (2 ^ k)"
    using False by (simp add: binary64_def Let_def e_def [symmetric] ulp)
  then show ?thesis by simp
qed

lemma binary64_numeral [simp]:
  "binary64 0 = 0" "binary64 1 = 1" "binary64 (- 1) = - 1"
  using binary64_of_int [of 1] binary64_of_int [of "- 1"] by (simp_all add: binary64_def)


lemma py_round_fraction:
  assumes "0 < b" "2 * (a - f * b) < b" "0 \<le> a - f * b"
  shows "py_round (of_int a / of_int b) = f"
proof -
  have fl: "\<lfloor>real_of_int a / real_of_int b\<rfloor> = f"
  proof (rule floor_unique)
    show "real_of_int f \<le> real_of_int a / real_of_int b"
      using assms by (simp add: pos_le_divide_eq flip: of_int_mult)
    have "a < (f + 1) * b" using assms by (simp add: algebra_simps)
    then have "real_of_int a < real_of_int ((f + 1) * b)" by (simp only: of_int_less_iff)
    then show "real_of_int a / real_of_int b < real_of_int f + 1"
      using assms(1) by (simp add: pos_divide_less_eq)
  qed
  have "2 * real_of_int (a - f * b) < real_of_int b"
    using assms(2) by (metis of_int_less_iff of_int_mult of_int_numeral)
  then have "real_of_int a / real_of_int b - real_of_int f < 1 / 2"
    using assms(1) by (simp add: field_simps)
  then show ?thesis
    by (simp add: py_round_def Let_def fl)
qed

text \<open>The binary64 values that the examples below need.\<close>

lemma binary64_1003_2000: "binary64 (1003 / 2000) = 4517110426252607 / 2 ^ 53"
proof -
  have "binary64 (1003 / 2000)
          = of_int (py_round (1003 / 2000 / power_int 2 (- 1 - 52))) * power_int 2 (- 1 - 52)"
    by (rule binary64_eq) simp_all
  also have "(1003 / 2000 / power_int 2 (- 1 - 52) :: real)
               = of_int (1003 * 2 ^ 53) / of_int 2000"
    by simp
  also have "py_round (of_int (1003 * 2 ^ 53) / of_int 2000) = 4517110426252607"
    by (rule py_round_fraction) simp_all
  finally show ?thesis by simp
qed

lemma binary64_1000_times: 
  "binary64 (1000 * (4517110426252607 / 2 ^ 53)) = 8822481301274623 / 2 ^ 44"
proof -
  have "binary64 (1000 * (4517110426252607 / 2 ^ 53))
          = of_int (py_round (1000 * (4517110426252607 / 2 ^ 53) / power_int 2 (8 - 52)))
              * power_int 2 (8 - 52)"
    by (rule binary64_eq) simp_all
  also have "(1000 * (4517110426252607 / 2 ^ 53) / power_int 2 (8 - 52) :: real)
               = of_int (1000 * 4517110426252607) / of_int (2 ^ 9)"
    by simp
  also have "py_round (of_int (1000 * 4517110426252607) / of_int (2 ^ 9)) = 8822481301274623"
    by (rule py_round_fraction) simp_all
  finally show ?thesis by simp
qed

lemma py_round_501: "py_round (8822481301274623 / 2 ^ 44) = 501"
proof -
  have "py_round (of_int 8822481301274623 / of_int (2 ^ 44)) = 501"
    by (rule py_round_fraction) simp_all
  then show ?thesis by simp
qed

lemma binary64_189_5: "binary64 (189 / 5) = 5319877059831398 / 2 ^ 47"
proof -
  have "binary64 (189 / 5)
          = of_int (py_round (189 / 5 / power_int 2 (5 - 52))) * power_int 2 (5 - 52)"
    by (rule binary64_eq) simp_all
  also have "(189 / 5 / power_int 2 (5 - 52) :: real) = of_int (189 * 2 ^ 47) / of_int 5"
    by simp
  also have "py_round (of_int (189 * 2 ^ 47) / of_int 5) = 5319877059831398"
    by (rule py_round_fraction) simp_all
  finally show ?thesis by simp
qed

lemma binary64_25_times:
  "binary64 (25 * (5319877059831398 / 2 ^ 47)) = 8312307905986559 / 2 ^ 43"
proof -
  have "binary64 (25 * (5319877059831398 / 2 ^ 47))
          = of_int (py_round (25 * (5319877059831398 / 2 ^ 47) / power_int 2 (9 - 52)))
              * power_int 2 (9 - 52)"
    by (rule binary64_eq) simp_all
  also have "(25 * (5319877059831398 / 2 ^ 47) / power_int 2 (9 - 52) :: real)
               = of_int (25 * 5319877059831398) / of_int (2 ^ 4)"
    by simp
  also have "py_round (of_int (25 * 5319877059831398) / of_int (2 ^ 4)) = 8312307905986559"
    by (rule py_round_fraction) simp_all
  finally show ?thesis by simp
qed

lemma py_int_944: "py_int (8312307905986559 / 2 ^ 43) = 944"
proof -
  have "\<lfloor>8312307905986559 / 2 ^ 43 :: real\<rfloor> = 944"
    by (rule floor_unique) simp_all
  then show ?thesis by (simp add: py_int_def)
qed

subsection \<open>From milliseconds to frames\<close>

lemma frame_count_None [simp]: "frame_count self None = of_nat (length (data self))"
  by (simp add: frame_count_def)

text \<open>
  With a frame rate that is a whole multiple of 1000 and whole milliseconds no float
  operation rounds, and the frame count is \<open>ms * frame_rate / 1000\<close>.
\<close>

lemma frame_count_whole:
  assumes rate: "frame_rate self = 1000 * k" "\<bar>frame_rate self\<bar> < 2 ^ 53"
    and ms: "\<bar>j\<bar> < 2 ^ 53" "\<bar>j * k\<bar> < 2 ^ 53"
  shows "frame_count self (Some (of_int j)) = of_int (j * k)"
proof -
  have k: "\<bar>k\<bar> < 2 ^ 53"
    using rate by linarith
  have "binary64 (of_int (frame_rate self)) = of_int (frame_rate self)"
    using rate(2) by (rule binary64_of_int)
  then have "binary64 (of_int (frame_rate self)) / 1000 = of_int k"
    using rate(1) by simp
  then have "binary64 (binary64 (of_int (frame_rate self)) / 1000) = of_int k"
    using k by (simp add: binary64_of_int)
  then have "frame_count self (Some (of_int j)) = binary64 (of_int j * of_int k)"
    using ms(1) by (simp add: frame_count_def binary64_of_int)
  also have "\<dots> = binary64 (of_int (j * k))"
    by simp
  also have "\<dots> = of_int (j * k)"
    using ms(2) by (rule binary64_of_int)
  finally show ?thesis .
qed

lemma frame_count_1000:
  assumes "frame_rate self = 1000" "\<bar>j\<bar> < 2 ^ 53"
  shows "frame_count self (Some (of_int j)) = of_int j"
  using frame_count_whole [of self 1 j] assms by simp

lemma frame_count_1000_numeral:
  assumes "frame_rate self = 1000"
  shows "frame_count self (Some 0) = 0" "frame_count self (Some 1) = 1"
    "frame_count self (Some (- 1)) = - 1"
    "(numeral w :: int) < 2 ^ 53 \<Longrightarrow> frame_count self (Some (numeral w)) = numeral w"
  using frame_count_1000 [OF assms, of 0] frame_count_1000 [OF assms, of 1]
    frame_count_1000 [OF assms, of "- 1"] frame_count_1000 [OF assms, of "numeral w"]
  by simp_all

lemma clamp_frame_eq:
  "clamp_frame self ms =
     max 0 (min (int (length (data self))) (py_int (frame_count self (Some ms))))"
  by (simp add: clamp_frame_def py_int_clamp)

lemma clamp_frame_range: "0 \<le> clamp_frame self ms \<and> clamp_frame self ms \<le> int (length (data self))"
  by (simp add: clamp_frame_eq)

lemma clamp_frame_beyond:
  "of_nat (length (data self)) \<le> frame_count self (Some ms) \<Longrightarrow>
     clamp_frame self ms = int (length (data self))"
  by (simp add: clamp_frame_def min_def)

subsection \<open>Slices inside the array\<close>

lemma slice_index_inside: "0 \<le> i \<Longrightarrow> i \<le> int n \<Longrightarrow> slice_index n i = nat i"
  by (simp add: slice_index_def)

lemma py_slice_inside:
  "0 \<le> i \<Longrightarrow> i \<le> j \<Longrightarrow> j \<le> int (length xs) \<Longrightarrow>
     py_slice xs i j = take (nat (j - i)) (drop (nat i) xs)"
  by (simp add: py_slice_def Let_def slice_index_inside nat_diff_distrib)

lemma slice_store_inside:
  "0 \<le> i \<Longrightarrow> i \<le> j \<Longrightarrow> j \<le> int (length xs) \<Longrightarrow>
     slice_store xs i j ys = take (nat i) xs @ ys @ drop (nat j) xs"
  by (simp add: slice_store_def Let_def slice_index_inside nat_diff_distrib nat_le_iff)

lemma length_py_slice_inside:
  "0 \<le> i \<Longrightarrow> i \<le> j \<Longrightarrow> j \<le> int (length xs) \<Longrightarrow> length (py_slice xs i j) = nat (j - i)"
  by (simp add: py_slice_inside)

lemma stretch_same [simp]: "stretch c c = (\<lambda>xs. xs)"
  by (rule ext) (simp add: stretch_def)

lemma broadcast_same: "broadcast a c (a, c, rows) = Inr rows"
  by (simp add: broadcast_def)

lemma inplace_inside:
  assumes "0 \<le> i" "i \<le> j" "j \<le> int (length xs)"
  shows "inplace f c xs i j (nat (j - i), c, rows) =
           Inr (take (nat i) xs @ map2 (map2 f) (take (nat (j - i)) (drop (nat i) xs)) rows
                  @ drop (nat j) xs)"
  using assms
  by (simp add: inplace_def Let_def length_py_slice_inside broadcast_same slice_store_inside
      py_slice_inside)

lemma inplace_inside_cols:
  assumes "0 \<le> i" "i \<le> j" "j \<le> int (length xs)" "c' = c \<or> c' = 1"
  shows "inplace f c xs i j (nat (j - i), c', rows) =
           Inr (take (nat i) xs
                  @ map2 (map2 f) (take (nat (j - i)) (drop (nat i) xs)) (map (stretch c c') rows)
                  @ drop (nat j) xs)"
  using assms
  by (simp add: inplace_def Let_def length_py_slice_inside broadcast_def slice_store_inside
      py_slice_inside)

subsection \<open>The duration query\<close>

text \<open>
  As stated, with the rounding of \<open>1000 * frame_count() / frame_rate\<close> computed exactly,
  C9 fails: for 1003 frames at 2000 frames per second the exact value is 501.5, which
  rounds to 502, but the float quotient \<open>1003 / 2000\<close> lies just below 0.5015, its product
  with 1000 is the float just below 501.5, and \<^verbatim>\<open>__len__\<close> returns 501.
\<close>

theorem len_milliseconds_counterexample:
  "dunder_len \<lparr>sample_width = 2, frame_rate = 2000, channels = 1,
               data = replicate 1003 [0]\<rparr> = Inr 501
   \<and> py_round (1000 * of_nat 1003 / of_int 2000) = 502"
proof -
  have "py_round (binary64 (1000 * binary64 (1003 / 2000))) = 501"
    by (simp only: binary64_1003_2000 binary64_1000_times py_round_501)
  then have code: "dunder_len \<lparr>sample_width = 2, frame_rate = 2000, channels = 1,
               data = replicate 1003 [0]\<rparr> = Inr 501"
    by (simp add: dunder_len_def)
  have "\<lfloor>1003 / 2 :: real\<rfloor> = 501"
    by (rule floor_unique) simp_all
  then have exact: "py_round (1000 * of_nat 1003 / of_int 2000) = 502"
    by (simp add: py_round_def Let_def)
  from code exact show ?thesis by (rule conjI)
qed

text \<open>
  C9 (as amended). With a non-zero frame rate \<^verbatim>\<open>__len__\<close> returns the rounding (a tie
  to the even integer) of the float \<open>1000 * (frame_count() / frame_rate)\<close>, whose quotient
  and product are each rounded to binary64; the builtin \<^verbatim>\<open>len\<close> gives the same number
  unless it is negative, which it refuses with \<^verbatim>\<open>ValueError\<close>. A buffer of a whole
  number \<open>k\<close> of seconds has length \<open>1000 * k\<close> (44100 frames at 44100 frames per second
  are 1000 milliseconds). The division error is raised exactly when the frame rate is zero.
\<close>

theorem len_milliseconds:
  fixes self :: audio_buffer
  defines "n \<equiv> length (data self)"
  defines "r \<equiv> frame_rate self"
  defines "ms \<equiv> py_round (binary64 (1000 * binary64 (of_nat n / of_int r)))"
  shows "(r \<noteq> 0 \<longrightarrow>
            dunder_len self = Inr ms
            \<and> py_len self = (if ms < 0 then Inl ValueError else Inr ms))
         \<and> (dunder_len self = Inl ZeroDivisionError \<longleftrightarrow> r = 0)
         \<and> (py_len self = Inl ZeroDivisionError \<longleftrightarrow> r = 0)
         \<and> (0 < r \<and> int n = k * r \<and> 1000 * k < 2 ^ 53 \<longrightarrow>
              dunder_len self = Inr (1000 * k) \<and> py_len self = Inr (1000 * k))"
proof -
  have len: "dunder_len self = Inr ms" if "r \<noteq> 0"
    using that by (simp add: dunder_len_def ms_def n_def r_def)
  have plen: "py_len self = (if ms < 0 then Inl ValueError else Inr ms)" if "r \<noteq> 0"
    using len [OF that] by (simp add: py_len_def)
  have zero: "dunder_len self = Inl ZeroDivisionError \<longleftrightarrow> r = 0"
    by (simp add: dunder_len_def r_def)
  have pzero: "py_len self = Inl ZeroDivisionError \<longleftrightarrow> r = 0"
    using zero plen by (cases "r = 0") (simp_all add: py_len_def)
  have whole: "ms = 1000 * k" "0 \<le> k" if "0 < r" "int n = k * r" "1000 * k < 2 ^ 53"
  proof -
    have "0 \<le> k * r" using that(2) by (metis of_nat_0_le_iff)
    with that(1) show k0: "0 \<le> k"
      by (simp add: zero_le_mult_iff)
    have "real n = real_of_int (k * r)"
      using that(2) by (metis of_int_of_nat_eq)
    then have q: "real n / real_of_int r = of_int k"
      using that(1) by simp
    have "binary64 (of_int k) = of_int k"
      using k0 that(3) by (intro binary64_of_int) linarith
    moreover have "binary64 (of_int (1000 * k)) = of_int (1000 * k)"
      using k0 that(3) by (intro binary64_of_int) linarith
    ultimately have "binary64 (1000 * binary64 (real n / real_of_int r)) = of_int (1000 * k)"
      by (simp add: q)
    then show "ms = 1000 * k"
      by (simp only: ms_def py_round_of_int)
  qed
  show ?thesis
    using len plen zero pzero whole by auto
qed

theorem len_milliseconds_witness:
  "frame_rate \<lparr>sample_width = 2, frame_rate = 44100, channels = 1,
                data = replicate 44100 [0]\<rparr> \<noteq> 0
   \<and> int (length (replicate 44100 [0::real])) = 1 * 44100
   \<and> (1000 * 1 :: int) < 2 ^ 53
   \<and> dunder_len \<lparr>sample_width = 2, frame_rate = 44100, channels = 1,
               data = replicate 44100 [0]\<rparr> = Inr 1000
   \<and> py_len \<lparr>sample_width = 2, frame_rate = 44100, channels = 1,
             data = replicate 44100 [0]\<rparr> = Inr 1000
   \<and> dunder_len \<lparr>sample_width = 2, frame_rate = 0, channels = 1, data = [[0]]\<rparr>
       = Inl ZeroDivisionError"
proof -
  let ?b = "\<lparr>sample_width = 2, frame_rate = 44100, channels = 1,
             data = replicate 44100 [0]\<rparr>"
  let ?z = "\<lparr>sample_width = 2, frame_rate = 0, channels = 1, data = [[0]]\<rparr>"
  have h: "0 < frame_rate ?b \<and> int (length (data ?b)) = 1 * frame_rate ?b
           \<and> (1000 * 1 :: int) < 2 ^ 53"
    by simp
  from len_milliseconds [of ?b 1] h
  have w: "dunder_len ?b = Inr (1000 * 1) \<and> py_len ?b = Inr (1000 * 1)"
    by blast
  have "frame_rate ?z = 0"
    by simp
  with len_milliseconds [of ?z 0] have e: "dunder_len ?z = Inl ZeroDivisionError"
    by blast
  show ?thesis
    using w e by simp
qed

subsection \<open>Filling in the blanks of \<^verbatim>\<open>fade\<close>\<close>

text \<open>
  C1 (what the code does). \<^verbatim>\<open>fade_in\<close> passes \<^verbatim>\<open>start=0\<close> and no \<^verbatim>\<open>end\<close>; zero is
  falsy, so \<^verbatim>\<open>fade\<close> evaluates \<^verbatim>\<open>end - duration\<close> with \<^verbatim>\<open>end = None\<close>: every call
  of \<^verbatim>\<open>fade_in\<close> raises \<^verbatim>\<open>TypeError\<close> and leaves the samples as they were. No ramp
  is applied and nothing is returned.
\<close>

theorem fade_in_raises: "fade_in self duration = Raised TypeError self"
  by (simp add: fade_in_def fade_def fill_blanks_def)

text \<open>
  C2. A falsy \<^verbatim>\<open>start\<close> (\<^verbatim>\<open>None\<close> or an explicit 0) is replaced by
  \<open>end - duration\<close>, and a falsy \<^verbatim>\<open>end\<close> by \<open>start + duration\<close> (the start as it
  then stands), both in milliseconds and before the conversion to frames; so
  \<^verbatim>\<open>fade(start=0, end=e, duration=d)\<close> is \<^verbatim>\<open>fade(start=e-d, end=e, duration=d)\<close>.
\<close>

theorem fade_falsy_start:
  "(falsy start \<longrightarrow>
      fill_blanks start (Some e) (Some d) = Inr (e - d, if e = 0 then e - d + d else e)
      \<and> fade self to_gain from_gain start (Some e) (Some d)
          = fade_ms self to_gain from_gain (e - d) (if e = 0 then e - d + d else e))
   \<and> (falsy end' \<and> s \<noteq> 0 \<longrightarrow>
      fill_blanks (Some s) end' (Some d) = Inr (s, s + d)
      \<and> fade self to_gain from_gain (Some s) end' (Some d)
          = fade_ms self to_gain from_gain s (s + d))
   \<and> fade self to_gain from_gain (Some 0) (Some e) (Some d)
       = fade self to_gain from_gain (Some (e - d)) (Some e) (Some d)"
  by (auto simp: falsy_def fade_def fill_blanks_def split: option.splits)

theorem fade_falsy_start_witness:
  "falsy (Some 0) \<and> falsy None \<and> (1::real) \<noteq> 0
   \<and> fill_blanks (Some 0) (Some 3) (Some 2) = Inr (1, 3)
   \<and> fill_blanks (Some 1) None (Some 2) = Inr (1, 3)
   \<and> fade \<lparr>sample_width = 2, frame_rate = 1000, channels = 1, data = [[1], [2], [3], [4]]\<rparr>
        0 (- 20) (Some 0) (Some 3) (Some 2)
      = fade \<lparr>sample_width = 2, frame_rate = 1000, channels = 1, data = [[1], [2], [3], [4]]\<rparr>
        0 (- 20) (Some 1) (Some 3) (Some 2)"
  using fade_falsy_start [of "Some 0" 3 2
      "\<lparr>sample_width = 2, frame_rate = 1000, channels = 1, data = [[1], [2], [3], [4]]\<rparr>"
      0 "- 20" None 1]
  by (simp add: falsy_def fade_def fill_blanks_def)

subsection \<open>Conversion to frames and clamping\<close>

text \<open>
  As stated, with the frame index \<open>ms * frame_rate / 1000\<close> truncated, C3 fails: the code
  computes \<^verbatim>\<open>ms * (frame_rate / 1000.0)\<close> in floats. At 37800 frames per second the
  quotient 37.8 is rounded down, its product with 25 ms is the float just below 945, and
  the start frame is 944, where the exact formula gives 945.
\<close>

theorem fade_clamping_counterexample:
  "clamp_frame \<lparr>sample_width = 2, frame_rate = 37800, channels = 1,
                 data = replicate 1000 [0]\<rparr> 25 = 944
   \<and> max 0 (min 1000 (py_int (25 * of_int 37800 / 1000))) = (945 :: int)"
proof -
  let ?b = "\<lparr>sample_width = 2, frame_rate = 37800, channels = 1, data = replicate 1000 [0]\<rparr>"
  have r: "binary64 37800 = 37800" and m: "binary64 25 = 25"
    using binary64_of_int [of 37800] binary64_of_int [of 25] by simp_all
  have "frame_count ?b (Some 25) = binary64 (25 * binary64 (189 / 5))"
    by (simp add: frame_count_def r m)
  then have fc: "frame_count ?b (Some 25) = 8312307905986559 / 2 ^ 43"
    by (simp only: binary64_189_5 binary64_25_times)
  have "clamp_frame ?b 25 = max (py_int (min (8312307905986559 / 2 ^ 43) 1000)) 0"
    unfolding clamp_frame_def fc by simp
  also have "min (8312307905986559 / 2 ^ 43) (1000 :: real) = 8312307905986559 / 2 ^ 43"
    by simp
  also have "max (py_int (8312307905986559 / 2 ^ 43)) 0 = 944"
    by (simp only: py_int_944)
  finally have code: "clamp_frame ?b 25 = 944" .
  have exact: "max 0 (min 1000 (py_int (25 * of_int 37800 / 1000))) = (945 :: int)"
    by simp
  from code exact show ?thesis by (rule conjI)
qed

text \<open>
  C3 (as amended). Once the blanks are filled (to \<open>s\<close> and \<open>e\<close> milliseconds),
  \<^verbatim>\<open>fade\<close> works on the frame indices \<open>int(ms * (frame_rate / 1000.0))\<close>, computed in
  floats and clamped to \<open>[0, frame_count()]\<close>; the ramp has \<open>end - start\<close> points, taken
  after the clamping, and it is multiplied into the frames from \<open>start\<close> up to \<open>end\<close>. When
  the converted end is at or beyond the last frame, the end is \<open>frame_count()\<close>, so the
  ramp has \<open>frame_count() - start\<close> points whatever duration was asked for. With a frame
  rate that is a whole multiple of 1000 and whole milliseconds (all below \<open>2 ^ 53\<close>) the
  index is \<open>ms * frame_rate / 1000\<close> truncated.
\<close>

theorem fade_clamping:
  fixes self :: audio_buffer
  assumes "fill_blanks start end' duration = Inr (s, e)"
  defines "n \<equiv> int (length (data self))"
  defines "sf \<equiv> max 0 (min n (py_int (frame_count self (Some s))))"
  defines "ef \<equiv> max 0 (min n (py_int (frame_count self (Some e))))"
  shows "fade self to_gain from_gain start end' duration
           = apply_fade self to_gain from_gain sf ef
         \<and> 0 \<le> sf \<and> sf \<le> n \<and> 0 \<le> ef \<and> ef \<le> n
         \<and> (sf < ef \<and> wf_buffer self \<longrightarrow>
              fade self to_gain from_gain start end' duration
                = Returned (self\<lparr>data :=
                    take (nat sf) (data self)
                    @ map2 (map2 (*)) (take (nat (ef - sf)) (drop (nat sf) (data self)))
                        (gain_profile (channels self) from_gain to_gain (nat (ef - sf)))
                    @ drop (nat ef) (data self)\<rparr>)
              \<and> length (gain_profile (channels self) from_gain to_gain (nat (ef - sf)))
                  = nat (ef - sf))
         \<and> (of_int n \<le> frame_count self (Some e) \<longrightarrow> ef = n)
         \<and> (frame_rate self = 1000 * k \<and> \<bar>frame_rate self\<bar> < 2 ^ 53
              \<and> s = of_int j \<and> \<bar>j\<bar> < 2 ^ 53 \<and> \<bar>j * k\<bar> < 2 ^ 53 \<longrightarrow>
              sf = max 0 (min n (py_int (s * of_int (frame_rate self) / 1000))))"
proof -
  have sf: "clamp_frame self s = sf" and ef: "clamp_frame self e = ef"
    by (simp_all add: clamp_frame_eq sf_def ef_def n_def)
  have fd: "fade self to_gain from_gain start end' duration
           = apply_fade self to_gain from_gain sf ef"
    using assms(1) by (simp add: fade_def fade_ms_def sf ef)
  have rng: "0 \<le> sf" "sf \<le> n" "0 \<le> ef" "ef \<le> n"
    by (simp_all add: sf_def ef_def n_def)
  have len: "length (gain_profile (channels self) from_gain to_gain (nat (ef - sf)))
                  = nat (ef - sf)"
    by (simp add: gain_profile_def logspace_def linspace_def)
  have ramp: "apply_fade self to_gain from_gain sf ef
                = Returned (self\<lparr>data :=
                    take (nat sf) (data self)
                    @ map2 (map2 (*)) (take (nat (ef - sf)) (drop (nat sf) (data self)))
                        (gain_profile (channels self) from_gain to_gain (nat (ef - sf)))
                    @ drop (nat ef) (data self)\<rparr>)"
    if "sf < ef" "wf_buffer self"
  proof -
    have "inplace (*) (channels self) (data self) sf ef
            (nat (ef - sf), channels self,
             gain_profile (channels self) from_gain to_gain (nat (ef - sf)))
          = Inr (take (nat sf) (data self)
                    @ map2 (map2 (*)) (take (nat (ef - sf)) (drop (nat sf) (data self)))
                        (gain_profile (channels self) from_gain to_gain (nat (ef - sf)))
                    @ drop (nat ef) (data self))"
      using rng that by (intro inplace_inside) (simp_all add: n_def)
    then show ?thesis
      using that by (simp add: apply_fade_def Let_def wf_buffer_def)
  qed
  have beyond: "ef = n" if "of_int n \<le> frame_count self (Some e)"
    using clamp_frame_beyond [of self e] that by (simp add: ef n_def)
  have whole: "sf = max 0 (min n (py_int (s * of_int (frame_rate self) / 1000)))"
    if "frame_rate self = 1000 * k" "\<bar>frame_rate self\<bar> < 2 ^ 53"
      "s = of_int j" "\<bar>j\<bar> < 2 ^ 53" "\<bar>j * k\<bar> < 2 ^ 53"
  proof -
    have "frame_count self (Some s) = of_int (j * k)"
      unfolding that(3) using that(1,2,4,5) by (rule frame_count_whole)
    moreover have "s * of_int (frame_rate self) / 1000 = of_int (j * k)"
      using that(1,3) by simp
    ultimately show ?thesis
      by (simp only: sf_def)
  qed
  have c3: "sf < ef \<and> wf_buffer self \<longrightarrow>
              fade self to_gain from_gain start end' duration
                = Returned (self\<lparr>data :=
                    take (nat sf) (data self)
                    @ map2 (map2 (*)) (take (nat (ef - sf)) (drop (nat sf) (data self)))
                        (gain_profile (channels self) from_gain to_gain (nat (ef - sf)))
                    @ drop (nat ef) (data self)\<rparr>)
              \<and> length (gain_profile (channels self) from_gain to_gain (nat (ef - sf)))
                  = nat (ef - sf)"
    using ramp len by (simp only: fd) blast
  have c4: "of_int n \<le> frame_count self (Some e) \<longrightarrow> ef = n"
    using beyond by blast
  have c5: "frame_rate self = 1000 * k \<and> \<bar>frame_rate self\<bar> < 2 ^ 53
              \<and> s = of_int j \<and> \<bar>j\<bar> < 2 ^ 53 \<and> \<bar>j * k\<bar> < 2 ^ 53 \<longrightarrow>
              sf = max 0 (min n (py_int (s * of_int (frame_rate self) / 1000)))"
    using whole by blast
  show ?thesis
    by (intro conjI fd rng c3 c4 c5)
qed

theorem fade_clamping_witness:
  "fill_blanks (Some 1) None (Some 10) = Inr (1, 11)
   \<and> fade \<lparr>sample_width = 2, frame_rate = 1000, channels = 1, data = [[1], [2], [3], [4]]\<rparr>
        0 (- 20) (Some 1) None (Some 10)
      = apply_fade \<lparr>sample_width = 2, frame_rate = 1000, channels = 1, data = [[1], [2], [3], [4]]\<rparr>
          0 (- 20) 1 4
   \<and> wf_buffer \<lparr>sample_width = 2, frame_rate = 1000, channels = 1, data = [[1], [2], [3], [4]]\<rparr>
   \<and> length (gain_profile 1 (- 20) 0 3) = 3
   \<and> (1000::int) = 1000 * 1 \<and> (1::real) = of_int 1 \<and> \<bar>1 * 1 :: int\<bar> < 2 ^ 53"
proof -
  have fb: "fill_blanks (Some 1) None (Some 10) = Inr (1, 11)"
    by (simp add: fill_blanks_def)
  show ?thesis
    using fb fade_clamping [OF fb,
      of "\<lparr>sample_width = 2, frame_rate = 1000, channels = 1, data = [[1], [2], [3], [4]]\<rparr>"
        0 "- 20" 1 1]
    by (simp add: wf_buffer_def frame_count_1000_numeral)
qed

subsection \<open>The gain curve\<close>

lemma ten_powr_minus_one: "(10::real) powr (- 1) = 1 / 10"
proof -
  have "(10::real) powr (- 1) = inverse (10 powr 1)"
    by (rule powr_minus)
  then show ?thesis by simp
qed

lemma nth_ramp:
  assumes "sf \<le> ef" "ef \<le> length xs" "length rows = ef - sf" "i < length xs"
  shows "(take sf xs @ map2 f (take (ef - sf) (drop sf xs)) rows @ drop ef xs) ! i
           = (if sf \<le> i \<and> i < ef then f (xs ! i) (rows ! (i - sf)) else xs ! i)"
  using assms by (auto simp: nth_append min_def)

lemma length_ramp:
  assumes "sf \<le> ef" "ef \<le> length xs" "length rows = ef - sf"
  shows "length (take sf xs @ map2 f (take (ef - sf) (drop sf xs)) rows @ drop ef xs) = length xs"
  using assms by (auto simp: min_def)

lemma logspace_nth:
  "k < num \<Longrightarrow>
     logspace a b num ! k
       = 10 powr (if num = 1 then a else a + of_nat k * ((b - a) / of_nat (num - 1)))"
  by (simp add: logspace_def linspace_def)

lemma length_logspace [simp]: "length (logspace a b num) = num"
  by (simp add: logspace_def linspace_def)

lemma length_gain_profile [simp]: "length (gain_profile c fg tg num) = num"
  by (simp add: gain_profile_def)

lemma gain_profile_nth:
  "k < num \<Longrightarrow> gain_profile c fg tg num ! k = replicate c (logspace (fg / 20) (tg / 20) num ! k)"
  by (simp add: gain_profile_def)

lemma map2_replicate_nth:
  "length row = c \<Longrightarrow> j < c \<Longrightarrow> map2 f row (replicate c g) ! j = f (row ! j) g"
  by simp

lemma length_map2_replicate:
  "length row = c \<Longrightarrow> length (map2 f row (replicate c g)) = c"
  by simp

lemma apply_fade_ramp:
  assumes wf: "wf_buffer self" and rng: "0 \<le> sf" "sf < ef" "ef \<le> int (length (data self))"
  shows "apply_fade self to_gain from_gain sf ef
           = Returned (self\<lparr>data :=
               take (nat sf) (data self)
               @ map2 (map2 (*)) (take (nat (ef - sf)) (drop (nat sf) (data self)))
                   (gain_profile (channels self) from_gain to_gain (nat (ef - sf)))
               @ drop (nat ef) (data self)\<rparr>)"
proof -
  have "inplace (*) (channels self) (data self) sf ef
          (nat (ef - sf), channels self,
           gain_profile (channels self) from_gain to_gain (nat (ef - sf)))
        = Inr (take (nat sf) (data self)
                  @ map2 (map2 (*)) (take (nat (ef - sf)) (drop (nat sf) (data self)))
                      (gain_profile (channels self) from_gain to_gain (nat (ef - sf)))
                  @ drop (nat ef) (data self))"
    using rng by (intro inplace_inside) simp_all
  then show ?thesis
    using wf rng by (simp add: apply_fade_def Let_def wf_buffer_def)
qed

lemma exponent_eq:
  fixes fg tg :: real
  assumes "num \<noteq> 1"
  shows "fg / 20 + of_nat k * ((tg / 20 - fg / 20) / of_nat (num - 1))
           = fg / 20 + of_nat k * (tg - fg) / (20 * of_nat (num - 1))"
  by (simp add: field_simps)

text \<open>
  C4. When the duration left after clamping is positive, \<^verbatim>\<open>fade\<close> returns the buffer
  with each sample of the frames \<open>start \<le> i < end\<close> multiplied, in every channel alike, by
  the \<open>k\<close>-th gain (\<open>k = i - start\<close>), which is ten to the power
  \<open>from_gain/20 + k * (to_gain - from_gain) / (20 * (duration - 1))\<close>: the exponents go
  linearly from \<open>from_gain/20\<close> to \<open>to_gain/20\<close> over \<open>duration\<close> points (a ramp of one
  point is the gain \<open>10 ^ (from_gain/20)\<close> alone). Every other sample is unchanged, and so
  is the shape.
\<close>

theorem fade_gain_curve:
  fixes self :: audio_buffer and to_gain from_gain s e :: real
    and start end' duration :: "real option"
  assumes wf: "wf_buffer self"
    and fb: "fill_blanks start end' duration = Inr (s, e)"
  defines "sf \<equiv> clamp_frame self s"
  defines "ef \<equiv> clamp_frame self e"
  defines "after \<equiv> final_state (fade self to_gain from_gain start end' duration)"
  assumes pos: "0 < ef - sf"
  shows "fade self to_gain from_gain start end' duration = Returned after
         \<and> after = self\<lparr>data := data after\<rparr>
         \<and> length (data after) = length (data self)
         \<and> (\<forall>i < length (data self).
              length (data after ! i) = channels self
              \<and> (\<forall>j < channels self.
                   data after ! i ! j =
                     (if sf \<le> int i \<and> int i < ef
                      then data self ! i ! j
                           * 10 powr (if ef - sf = 1 then from_gain / 20
                                      else from_gain / 20
                                           + of_int (int i - sf) * (to_gain - from_gain)
                                             / (20 * of_int (ef - sf - 1)))
                      else data self ! i ! j)))"
proof -
  let ?xs = "data self" and ?c = "channels self"
  let ?num = "nat (ef - sf)"
  let ?gp = "gain_profile ?c from_gain to_gain ?num"
  let ?d = "take (nat sf) ?xs @ map2 (map2 (*)) (take ?num (drop (nat sf) ?xs)) ?gp
              @ drop (nat ef) ?xs"
  have rng: "0 \<le> sf" "sf < ef" "ef \<le> int (length ?xs)"
    using pos clamp_frame_range [of self s] clamp_frame_range [of self e]
    by (simp_all add: sf_def ef_def)
  have fd: "fade self to_gain from_gain start end' duration = Returned (self\<lparr>data := ?d\<rparr>)"
    using fb apply_fade_ramp [OF wf rng, of to_gain from_gain]
    by (simp add: fade_def fade_ms_def sf_def ef_def)
  then have after: "after = self\<lparr>data := ?d\<rparr>"
    by (simp add: after_def)
  have nat_rng: "nat sf \<le> nat ef" "nat ef \<le> length ?xs" "length ?gp = nat ef - nat sf"
    using rng by (simp_all add: nat_diff_distrib)
  have num: "?num = nat ef - nat sf"
    using rng by (simp add: nat_diff_distrib)
  have len: "length ?d = length ?xs"
    using length_ramp [OF nat_rng, of "map2 (*)"] by (simp add: num)
  have rows: "length (?d ! i) = ?c
              \<and> (\<forall>j < ?c. ?d ! i ! j =
                     (if sf \<le> int i \<and> int i < ef
                      then ?xs ! i ! j
                           * 10 powr (if ef - sf = 1 then from_gain / 20
                                      else from_gain / 20
                                           + of_int (int i - sf) * (to_gain - from_gain)
                                             / (20 * of_int (ef - sf - 1)))
                      else ?xs ! i ! j))"
    if i: "i < length ?xs" for i
  proof -
    have row: "length (?xs ! i) = ?c"
      using wf i by (simp add: wf_buffer_def list_all_length)
    have nth: "?d ! i = (if nat sf \<le> i \<and> i < nat ef
                         then map2 (*) (?xs ! i) (?gp ! (i - nat sf)) else ?xs ! i)"
      using nth_ramp [OF nat_rng i, of "map2 (*)"] by (simp add: num)
    show ?thesis
    proof (cases "sf \<le> int i \<and> int i < ef")
      case False
      then have "\<not> (nat sf \<le> i \<and> i < nat ef)"
        using rng by linarith
      with nth False row show ?thesis by auto
    next
      case True
      then have inside: "nat sf \<le> i \<and> i < nat ef" and k: "i - nat sf < ?num"
        using rng by linarith+
      have "int (i - nat sf) = int i - sf"
        using True rng by linarith
      then have "real_of_int (int (i - nat sf)) = of_int (int i - sf)"
        by (rule arg_cong)
      then have kk: "real (i - nat sf) = of_int (int i - sf)"
        by (simp only: of_int_of_nat_eq)
      have "int (?num - 1) = ef - sf - 1"
        using rng by linarith
      then have "real_of_int (int (?num - 1)) = of_int (ef - sf - 1)"
        by (rule arg_cong)
      then have nn: "real (?num - 1) = of_int (ef - sf - 1)"
        by (simp only: of_int_of_nat_eq)
      have one: "?num = 1 \<longleftrightarrow> ef - sf = 1"
        using rng by linarith
      let ?E = "if ef - sf = 1 then from_gain / 20
                else from_gain / 20
                     + of_int (int i - sf) * (to_gain - from_gain)
                       / (20 * of_int (ef - sf - 1))"
      have ls: "logspace (from_gain / 20) (to_gain / 20) ?num ! (i - nat sf) = 10 powr ?E"
      proof (cases "ef - sf = 1")
        case True
        with one have "?num = 1" by simp
        with k True show ?thesis by (simp add: logspace_nth)
      next
        case False
        with one have ne: "?num \<noteq> 1" by simp
        have "logspace (from_gain / 20) (to_gain / 20) ?num ! (i - nat sf)
                = 10 powr (from_gain / 20
                           + real (i - nat sf) * ((to_gain / 20 - from_gain / 20) / real (?num - 1)))"
          using k ne by (simp only: logspace_nth if_False)
        also have "\<dots> = 10 powr (from_gain / 20
                           + real (i - nat sf) * (to_gain - from_gain) / (20 * real (?num - 1)))"
          by (simp only: exponent_eq [OF ne])
        also have "\<dots> = 10 powr ?E"
          using False by (simp only: kk nn if_False)
        finally show ?thesis .
      qed
      have g: "?gp ! (i - nat sf) = replicate ?c (10 powr ?E)"
        by (simp only: gain_profile_nth [OF k] ls)
      show ?thesis
        using nth inside True row g by simp
    qed
  qed
  show ?thesis
    using fd after len rows by simp
qed

theorem fade_gain_curve_witness:
  "wf_buffer \<lparr>sample_width = 2, frame_rate = 1000, channels = 1, data = [[1], [2], [3], [4]]\<rparr>
   \<and> fill_blanks (Some 1) (Some 3) (Some 2) = Inr (1, 3)
   \<and> clamp_frame \<lparr>sample_width = 2, frame_rate = 1000, channels = 1, data = [[1], [2], [3], [4]]\<rparr> 1 = 1
   \<and> clamp_frame \<lparr>sample_width = 2, frame_rate = 1000, channels = 1, data = [[1], [2], [3], [4]]\<rparr> 3 = 3
   \<and> data (final_state (fade
         \<lparr>sample_width = 2, frame_rate = 1000, channels = 1, data = [[1], [2], [3], [4]]\<rparr>
         0 (- 20) (Some 1) (Some 3) (Some 2))) ! 1 ! 0 = 2 * (1 / 10)
   \<and> data (final_state (fade
         \<lparr>sample_width = 2, frame_rate = 1000, channels = 1, data = [[1], [2], [3], [4]]\<rparr>
         0 (- 20) (Some 1) (Some 3) (Some 2))) ! 2 ! 0 = 3
   \<and> data (final_state (fade
         \<lparr>sample_width = 2, frame_rate = 1000, channels = 1, data = [[1], [2], [3], [4]]\<rparr>
         0 (- 20) (Some 1) (Some 3) (Some 2))) ! 3 ! 0 = 4"
proof -
  let ?b = "\<lparr>sample_width = 2, frame_rate = 1000, channels = 1, data = [[1], [2], [3], [4]]\<rparr>"
  have wf: "wf_buffer ?b"
    by (simp add: wf_buffer_def)
  have fb: "fill_blanks (Some 1) (Some 3) (Some 2) = Inr (1, 3)"
    by (simp add: fill_blanks_def)
  have sf: "clamp_frame ?b 1 = 1" and ef: "clamp_frame ?b 3 = 3"
    by (simp_all add: clamp_frame_eq frame_count_1000_numeral)
  have pos: "0 < clamp_frame ?b 3 - clamp_frame ?b 1"
    unfolding sf ef by simp
  note curve = fade_gain_curve [OF wf fb pos, of 0 "- 20", unfolded sf ef]
  from curve have all: "\<forall>i<4. \<forall>j<1.
       data (final_state (fade ?b 0 (- 20) (Some 1) (Some 3) (Some 2))) ! i ! j =
         (if 1 \<le> int i \<and> int i < 3
          then data ?b ! i ! j * 10 powr (- 20 / 20 + of_int (int i - 1) * (0 - - 20) / (20 * of_int (3 - 1 - 1)))
          else data ?b ! i ! j)"
    by simp
  have e1: "data (final_state (fade ?b 0 (- 20) (Some 1) (Some 3) (Some 2))) ! 1 ! 0 = 2 * (1 / 10)"
    using all [rule_format, of 1 0] ten_powr_minus_one by simp
  have e2: "data (final_state (fade ?b 0 (- 20) (Some 1) (Some 3) (Some 2))) ! 2 ! 0 = 3"
    using all [rule_format, of 2 0] by simp
  have e3: "data (final_state (fade ?b 0 (- 20) (Some 1) (Some 3) (Some 2))) ! 3 ! 0 = 4"
    using all [rule_format, of 3 0] by simp
  show ?thesis
    using wf fb sf ef e1 e2 e3 by simp
qed

text \<open>
  C5. When the end frame is not after the start frame once both are converted and
  clamped, \<^verbatim>\<open>fade\<close> raises nothing and returns the buffer with every sample as it was.
\<close>

theorem fade_noop:
  assumes "fill_blanks start end' duration = Inr (s, e)"
    and "clamp_frame self e \<le> clamp_frame self s"
  shows "fade self to_gain from_gain start end' duration = Returned self"
  using assms by (simp add: fade_def fade_ms_def apply_fade_def)

theorem fade_noop_witness:
  "fill_blanks (Some 3) (Some 1) None = Inr (3, 1)
   \<and> clamp_frame \<lparr>sample_width = 2, frame_rate = 1000, channels = 1, data = [[1], [2], [3], [4]]\<rparr> 1
       \<le> clamp_frame \<lparr>sample_width = 2, frame_rate = 1000, channels = 1, data = [[1], [2], [3], [4]]\<rparr> 3
   \<and> fade \<lparr>sample_width = 2, frame_rate = 1000, channels = 1, data = [[1], [2], [3], [4]]\<rparr>
        (- 120) 0 (Some 3) (Some 1) None
      = Returned \<lparr>sample_width = 2, frame_rate = 1000, channels = 1, data = [[1], [2], [3], [4]]\<rparr>"
proof -
  let ?b = "\<lparr>sample_width = 2, frame_rate = 1000, channels = 1, data = [[1], [2], [3], [4]]\<rparr>"
  have fb: "fill_blanks (Some 3) (Some 1) None = Inr (3, 1)"
    by (simp add: fill_blanks_def)
  have le: "clamp_frame ?b 1 \<le> clamp_frame ?b 3"
    by (simp add: clamp_frame_eq frame_count_1000_numeral)
  show ?thesis
    using fb le fade_noop [OF fb le, of "- 120" 0] by simp
qed

subsection \<open>Overlay inside the array\<close>

lemma inplace_scale_inside:
  "0 \<le> i \<Longrightarrow> i \<le> j \<Longrightarrow> j \<le> int (length xs) \<Longrightarrow>
     inplace_scale xs i j k
       = take (nat i) xs @ map (map (\<lambda>x. x * k)) (take (nat (j - i)) (drop (nat i) xs))
           @ drop (nat j) xs"
  by (simp add: inplace_scale_def slice_store_inside py_slice_inside)

lemma slice_index_le: "slice_index n i \<le> n"
  unfolding slice_index_def by (cases "i < 0") (auto simp: max_def)

lemma length_py_slice:
  "length (py_slice xs i j) = slice_index (length xs) j - slice_index (length xs) i"
  using slice_index_le [of "length xs" j] by (simp add: py_slice_def Let_def)

lemma length_slice_store:
  assumes "length ys = length (py_slice xs i j)"
  shows "length (slice_store xs i j ys) = length xs"
  using assms slice_index_le [of "length xs" i] slice_index_le [of "length xs" j]
  by (simp add: slice_store_def Let_def length_py_slice)

lemma length_inplace_scale [simp]: "length (inplace_scale xs i j k) = length xs"
  by (simp add: inplace_scale_def length_slice_store)

lemma nth_scaled:
  assumes "sf \<le> ef" "ef \<le> length xs" "i < length xs"
  shows "(take sf xs @ map f (take (ef - sf) (drop sf xs)) @ drop ef xs) ! i
           = (if sf \<le> i \<and> i < ef then f (xs ! i) else xs ! i)"
  using assms by (auto simp: nth_append min_def)

lemma duck_fields [simp]:
  "sample_width (duck self s e gain) = sample_width self"
  "frame_rate (duck self s e gain) = frame_rate self"
  "channels (duck self s e gain) = channels self"
  "length (data (duck self s e gain)) = length (data self)"
  by (simp_all add: duck_def split: option.splits)

lemma duck_data: "duck self s e gain = self\<lparr>data := data (duck self s e gain)\<rparr>"
  by (simp add: duck_def split: option.splits)

lemma mix_returns:
  fixes self :: audio_buffer and buf :: "audio_buffer option" and position :: real
    and gain :: "real option"
  defines "start \<equiv> py_int (frame_count self (Some position))"
  defines "m \<equiv> (case buf of None \<Rightarrow> length (data self) | Some b \<Rightarrow> length (data b))"
  defines "cs \<equiv> (case buf of None \<Rightarrow> channels self | Some b \<Rightarrow> channels b)"
  defines "en \<equiv> min (start + int m) (int (length (data self)))"
  defines "xs1 \<equiv> data (duck self start en gain)"
  defines "ys \<equiv> (case buf of None \<Rightarrow> xs1 | Some b \<Rightarrow> data b)"
  assumes ch: "cs = channels self \<or> cs = 1"
    and rng: "0 \<le> start" "start < en"
  shows "mix self buf position gain
           = Returned (self\<lparr>data :=
               take (nat start) xs1
               @ map2 (map2 (+)) (take (nat (en - start)) (drop (nat start) xs1))
                   (map (stretch (channels self) cs) (take (nat (en - start)) ys))
               @ drop (nat en) xs1\<rparr>)"
proof -
  have st: "py_int (frame_count self (Some position)) = start"
    by (simp add: start_def)
  have m: "(case buf of None \<Rightarrow> frame_count self None | Some b \<Rightarrow> frame_count b None) = of_nat m"
    by (simp add: m_def split: option.splits)
  have en: "py_int (min (of_int start + of_nat m) (frame_count self None)) = en"
  proof -
    have "min (real_of_int start + of_nat m) (of_nat (length (data self)))
            = of_int (min (start + int m) (int (length (data self))))"
      by (simp add: min_def)
    then show ?thesis
      by (simp only: frame_count_None en_def py_int_of_int)
  qed
  have le: "en \<le> int (length (data self))" "en - start \<le> int m"
    by (simp_all add: en_def)
  have lys: "m = length ys"
    by (simp add: ys_def m_def xs1_def split: option.splits)
  have rows: "py_slice ys 0 (en - start) = take (nat (en - start)) ys"
    using rng le lys by (simp add: py_slice_inside)
  have lrows: "length (take (nat (en - start)) ys) = nat (en - start)"
    using rng le lys by simp
  have chs: "channels (case buf of None \<Rightarrow> duck self start en gain | Some b \<Rightarrow> b) = cs"
    by (simp add: cs_def split: option.splits)
  have dsrc: "data (case buf of None \<Rightarrow> duck self start en gain | Some b \<Rightarrow> b) = ys"
    by (simp add: ys_def xs1_def split: option.splits)
  have upd: "duck self start en gain\<lparr>data := d\<rparr> = self\<lparr>data := d\<rparr>" for d
    by (simp add: duck_def split: option.splits)
  have ip: "inplace (+) (channels self) xs1 start en
              (nat (en - start), cs, take (nat (en - start)) ys)
            = Inr (take (nat start) xs1
               @ map2 (map2 (+)) (take (nat (en - start)) (drop (nat start) xs1))
                   (map (stretch (channels self) cs) (take (nat (en - start)) ys))
               @ drop (nat en) xs1)"
    using rng le ch by (intro inplace_inside_cols) (simp_all add: xs1_def)
  show ?thesis
    unfolding mix_def st m en Let_def dsrc chs rows lrows
    using rng ip by (simp add: xs1_def upd)
qed

lemma mix_returns_same:
  fixes self :: audio_buffer and buf :: "audio_buffer option" and position :: real
    and gain :: "real option"
  defines "start \<equiv> py_int (frame_count self (Some position))"
  defines "m \<equiv> (case buf of None \<Rightarrow> length (data self) | Some b \<Rightarrow> length (data b))"
  defines "en \<equiv> min (start + int m) (int (length (data self)))"
  defines "xs1 \<equiv> data (duck self start en gain)"
  defines "ys \<equiv> (case buf of None \<Rightarrow> xs1 | Some b \<Rightarrow> data b)"
  assumes ch: "case buf of None \<Rightarrow> True | Some b \<Rightarrow> channels b = channels self"
    and rng: "0 \<le> start" "start < en"
  shows "mix self buf position gain
           = Returned (self\<lparr>data :=
               take (nat start) xs1
               @ map2 (map2 (+)) (take (nat (en - start)) (drop (nat start) xs1))
                   (take (nat (en - start)) ys)
               @ drop (nat en) xs1\<rparr>)"
proof -
  have cs: "(case buf of None \<Rightarrow> channels self | Some b \<Rightarrow> channels b) = channels self"
    using ch by (simp split: option.splits)
  then have "(case buf of None \<Rightarrow> channels self | Some b \<Rightarrow> channels b) = channels self
             \<or> (case buf of None \<Rightarrow> channels self | Some b \<Rightarrow> channels b) = 1"
    by (rule disjI1)
  from mix_returns [OF this, of position gain] rng show ?thesis
    unfolding start_def m_def en_def xs1_def ys_def cs by simp
qed

lemma mix_empty:
  fixes self :: audio_buffer and buf :: "audio_buffer option" and position :: real
  defines "start \<equiv> py_int (frame_count self (Some position))"
  defines "m \<equiv> (case buf of None \<Rightarrow> length (data self) | Some b \<Rightarrow> length (data b))"
  defines "en \<equiv> min (start + int m) (int (length (data self)))"
  assumes "en \<le> start"
  shows "mix self buf position gain = Returned self"
proof -
  have st: "py_int (frame_count self (Some position)) = start"
    by (simp add: start_def)
  have m: "(case buf of None \<Rightarrow> frame_count self None | Some b \<Rightarrow> frame_count b None) = of_nat m"
    by (simp add: m_def split: option.splits)
  have en: "py_int (min (of_int start + of_nat m) (frame_count self None)) = en"
  proof -
    have "min (real_of_int start + of_nat m) (of_nat (length (data self)))
            = of_int (min (start + int m) (int (length (data self))))"
      by (simp add: min_def)
    then show ?thesis
      by (simp only: frame_count_None en_def py_int_of_int)
  qed
  show ?thesis
    unfolding mix_def st m en Let_def using assms(4) by simp
qed

lemma duck_outside:
  assumes "0 \<le> s" "s \<le> e" "e \<le> int (length (data self))" "i < length (data self)"
    and "\<not> (s \<le> int i \<and> int i < e)"
  shows "data (duck self s e gain) ! i = data self ! i"
proof -
  have out: "\<not> (nat s \<le> i \<and> i < nat e)"
    using assms by linarith
  have "(take (nat s) (data self)
          @ map (map (\<lambda>x. x * k)) (take (nat e - nat s) (drop (nat s) (data self)))
          @ drop (nat e) (data self)) ! i = data self ! i" for k
    using nth_scaled [of "nat s" "nat e" "data self" i "map (\<lambda>x. x * k)"] assms out
    by auto
  then show ?thesis
    using assms(1-3) by (simp add: duck_def inplace_scale_inside nat_diff_distrib split: option.splits)
qed

text \<open>
  C6 (as amended). Take an overlay of a buffer with the same number of channels (or of the
  buffer itself) whose start frame \<open>int(position * (frame_rate / 1000.0))\<close>, computed in
  floats, is not negative. The mixed range ends at
  \<open>end = min(start + source frame count, frame_count())\<close>: the call returns the buffer,
  raises nothing, reads and writes only inside the two arrays, makes each frame \<open>i\<close> of
  \<open>[start, end)\<close> the sum of that frame (as the optional scaling left it) and of frame
  \<open>i - start\<close> of the source, once, changes no frame outside \<open>[start, end)\<close>, and
  changes nothing at all when \<open>start \<ge> frame_count()\<close>.
\<close>

theorem overlay_truncation:
  fixes self :: audio_buffer and buf :: "audio_buffer option" and position :: real
    and gain :: "real option"
  defines "n \<equiv> length (data self)"
  defines "start \<equiv> py_int (frame_count self (Some position))"
  defines "m \<equiv> (case buf of None \<Rightarrow> n | Some b \<Rightarrow> length (data b))"
  defines "en \<equiv> min (start + int m) (int n)"
  defines "target \<equiv> data (duck self start en gain)"
  defines "source \<equiv> (case buf of None \<Rightarrow> target | Some b \<Rightarrow> data b)"
  defines "after \<equiv> final_state (mix self buf position gain)"
  assumes ch: "case buf of None \<Rightarrow> True | Some b \<Rightarrow> channels b = channels self"
    and nonneg: "0 \<le> start"
  shows "overlay set_channels set_frame_rate self
             (case buf of None \<Rightarrow> Self | Some b \<Rightarrow> Buffer b) position gain
           = mix self buf position gain
         \<and> mix self buf position gain = Returned after
         \<and> after = self\<lparr>data := data after\<rparr>
         \<and> length (data after) = n
         \<and> en \<le> int n \<and> en - start \<le> int m
         \<and> (\<forall>i < n. start \<le> int i \<and> int i < en \<longrightarrow>
               data after ! i = map2 (+) (target ! i) (source ! nat (int i - start)))
         \<and> (\<forall>i < n. \<not> (start \<le> int i \<and> int i < en) \<longrightarrow> data after ! i = data self ! i)
         \<and> (int n \<le> start \<longrightarrow> after = self)"
proof -
  have ov: "overlay set_channels set_frame_rate self
             (case buf of None \<Rightarrow> Self | Some b \<Rightarrow> Buffer b) position gain
           = mix self buf position gain"
    by (simp add: overlay_def split: option.splits)
  have bounds: "en \<le> int n" "en - start \<le> int m"
    by (simp_all add: en_def)
  have m: "m = (case buf of None \<Rightarrow> length (data self) | Some b \<Rightarrow> length (data b))"
    unfolding m_def n_def ..
  show ?thesis
  proof (cases "en \<le> start")
    case True
    then have "mix self buf position gain = Returned self"
      unfolding en_def start_def m n_def by (rule mix_empty)
    moreover have "\<forall>i < n. start \<le> int i \<and> int i < en \<longrightarrow>
               data after ! i = map2 (+) (target ! i) (source ! nat (int i - start))"
      using True by auto
    ultimately show ?thesis
      using ov bounds by (simp add: after_def n_def)
  next
    case False
    then have lt: "start < en" by simp
    let ?xs1 = "target"
    let ?ys = "source"
    let ?d = "take (nat start) ?xs1
               @ map2 (map2 (+)) (take (nat (en - start)) (drop (nat start) ?xs1))
                   (take (nat (en - start)) ?ys)
               @ drop (nat en) ?xs1"
    have ret: "mix self buf position gain = Returned (self\<lparr>data := ?d\<rparr>)"
      using mix_returns_same [OF ch, of position gain] nonneg lt
      unfolding en_def start_def m n_def target_def source_def by simp
    then have after: "after = self\<lparr>data := ?d\<rparr>"
      by (simp add: after_def)
    have lys: "length ?ys = m"
      by (simp add: m source_def target_def split: option.splits)
    have nat_rng: "nat start \<le> nat en" "nat en \<le> length ?xs1"
      "length (take (nat (en - start)) ?ys) = nat en - nat start"
      using nonneg lt bounds lys by (simp_all add: n_def target_def nat_diff_distrib)
    have num: "nat (en - start) = nat en - nat start"
      using nonneg lt by (simp add: nat_diff_distrib)
    have "length ?d = length target"
      using length_ramp [OF nat_rng, of "map2 (+)"] by (simp only: num)
    then have len: "length ?d = n"
      by (simp add: target_def n_def)
    have outside: "?d ! i = data self ! i"
      if i: "i < n" and out: "\<not> (start \<le> int i \<and> int i < en)" for i
    proof -
      have "\<not> (nat start \<le> i \<and> i < nat en)"
        using out nonneg by linarith
      moreover have "i < length ?xs1"
        using i by (simp add: n_def target_def)
      ultimately have "?d ! i = ?xs1 ! i"
        using nth_ramp [OF nat_rng, of i "map2 (+)"] by (auto simp: num)
      also have "\<dots> = data self ! i"
        unfolding target_def
        using nonneg lt bounds i out by (intro duck_outside) (simp_all add: n_def)
      finally show ?thesis .
    qed
    have inside: "?d ! i = map2 (+) (target ! i) (source ! nat (int i - start))"
      if i: "i < n" and ins: "start \<le> int i \<and> int i < en" for i
    proof -
      have within: "nat start \<le> i \<and> i < nat en"
        using ins nonneg by linarith
      have r: "i - nat start = nat (int i - start)" "nat (int i - start) < nat (en - start)"
        using ins nonneg by linarith+
      have "i < length ?xs1"
        using i by (simp add: n_def target_def)
      then have "?d ! i = map2 (+) (?xs1 ! i) (take (nat (en - start)) ?ys ! (i - nat start))"
        using nth_ramp [OF nat_rng, of i "map2 (+)"] within by (simp add: num)
      also have "take (nat (en - start)) ?ys ! (i - nat start) = ?ys ! nat (int i - start)"
        using r by simp
      finally show ?thesis .
    qed
    have far: "\<not> int n \<le> start"
      using lt bounds by simp
    have c2: "mix self buf position gain = Returned after"
      by (simp only: ret after)
    have c3: "after = self\<lparr>data := data after\<rparr>"
      by (subst (2) after, subst after) simp
    have da: "data after = ?d"
      by (subst after) simp
    have c4: "length (data after) = n"
      by (simp only: da len)
    have c5: "\<forall>i < n. \<not> (start \<le> int i \<and> int i < en) \<longrightarrow> data after ! i = data self ! i"
      using outside by (simp only: da) blast
    have c6: "\<forall>i < n. start \<le> int i \<and> int i < en \<longrightarrow>
               data after ! i = map2 (+) (target ! i) (source ! nat (int i - start))"
      using inside by (simp only: da) blast
    show ?thesis
      using far by (intro conjI ov c2 c3 c4 c6 c5 bounds) simp
  qed
qed

text \<open>
  As stated, for every overlay call, C6 fails: with a position of -1 ms at 1000 frames per
  second the start frame is -1 (no float operation rounds here); a five-frame source on a three-frame target gives
  \<open>end = 3\<close>, numpy reads \<^verbatim>\<open>self._data[-1:3]\<close> as the last row alone, and adding the
  four rows \<^verbatim>\<open>buf._data[0:4]\<close> to it raises \<^verbatim>\<open>ValueError\<close>.
\<close>

theorem overlay_truncation_counterexample:
  "mix \<lparr>sample_width = 2, frame_rate = 1000, channels = 1, data = [[1], [2], [3]]\<rparr>
     (Some \<lparr>sample_width = 2, frame_rate = 1000, channels = 1,
             data = [[10], [20], [30], [40], [50]]\<rparr>) (- 1) None
   = Raised ValueError
       \<lparr>sample_width = 2, frame_rate = 1000, channels = 1, data = [[1], [2], [3]]\<rparr>"
  by (simp add: mix_def frame_count_1000_numeral duck_def inplace_def broadcast_def
      py_slice_def slice_index_def Let_def)

theorem overlay_truncation_witness:
  "(case Some \<lparr>sample_width = 2, frame_rate = 1000, channels = 1,
               data = [[10], [20], [30], [40], [50]]\<rparr> of
      None \<Rightarrow> True | Some b \<Rightarrow> channels b = (1::nat))
   \<and> py_int (frame_count
        \<lparr>sample_width = 2, frame_rate = 1000, channels = 1, data = [[1], [2], [3]]\<rparr>
        (Some 1)) = 1
   \<and> mix \<lparr>sample_width = 2, frame_rate = 1000, channels = 1, data = [[1], [2], [3]]\<rparr>
       (Some \<lparr>sample_width = 2, frame_rate = 1000, channels = 1,
               data = [[10], [20], [30], [40], [50]]\<rparr>) 1 None
     = Returned (final_state
        (mix \<lparr>sample_width = 2, frame_rate = 1000, channels = 1, data = [[1], [2], [3]]\<rparr>
          (Some \<lparr>sample_width = 2, frame_rate = 1000, channels = 1,
               data = [[10], [20], [30], [40], [50]]\<rparr>) 1 None))
   \<and> data (final_state
        (mix \<lparr>sample_width = 2, frame_rate = 1000, channels = 1, data = [[1], [2], [3]]\<rparr>
          (Some \<lparr>sample_width = 2, frame_rate = 1000, channels = 1,
               data = [[10], [20], [30], [40], [50]]\<rparr>) 1 None)) ! 0 = [1]
   \<and> data (final_state
        (mix \<lparr>sample_width = 2, frame_rate = 1000, channels = 1, data = [[1], [2], [3]]\<rparr>
          (Some \<lparr>sample_width = 2, frame_rate = 1000, channels = 1,
               data = [[10], [20], [30], [40], [50]]\<rparr>) 1 None)) ! 2 = [3 + 20]
   \<and> length (data (final_state
        (mix \<lparr>sample_width = 2, frame_rate = 1000, channels = 1, data = [[1], [2], [3]]\<rparr>
          (Some \<lparr>sample_width = 2, frame_rate = 1000, channels = 1,
               data = [[10], [20], [30], [40], [50]]\<rparr>) 1 None))) = 3"
proof -
  let ?self = "\<lparr>sample_width = 2, frame_rate = 1000, channels = 1, data = [[1], [2], [3]]\<rparr>"
  let ?b = "\<lparr>sample_width = 2, frame_rate = 1000, channels = 1,
               data = [[10], [20], [30], [40], [50]]\<rparr>"
  have ch: "case Some ?b of None \<Rightarrow> True | Some b \<Rightarrow> channels b = channels ?self"
    by simp
  have st: "py_int (frame_count ?self (Some 1)) = 1"
    by (simp add: frame_count_1000_numeral)
  have nonneg: "0 \<le> py_int (frame_count ?self (Some 1))"
    unfolding st by simp
  note tr = overlay_truncation [OF ch nonneg, where gain = None, unfolded st]
  from tr have ret: "mix ?self (Some ?b) 1 None = Returned (final_state (mix ?self (Some ?b) 1 None))"
    by blast
  from tr have len: "length (data (final_state (mix ?self (Some ?b) 1 None))) = 3"
    by simp
  from tr have "\<forall>i<3. \<not> (1 \<le> int i \<and> int i < 3) \<longrightarrow>
      data (final_state (mix ?self (Some ?b) 1 None)) ! i = data ?self ! i"
    by simp
  then have first: "data (final_state (mix ?self (Some ?b) 1 None)) ! 0 = [1]"
    by simp
  from tr have "\<forall>i<3. 1 \<le> int i \<and> int i < 3 \<longrightarrow>
      data (final_state (mix ?self (Some ?b) 1 None)) ! i
        = map2 (+) (data (duck ?self 1 3 None) ! i) (data ?b ! nat (int i - 1))"
    by simp
  from this [rule_format, of 2]
  have last: "data (final_state (mix ?self (Some ?b) 1 None)) ! 2 = [3 + 20]"
    by (simp add: duck_def)
  show ?thesis
    using ret len first last st by simp
qed

subsection \<open>Ducking\<close>








subsection \<open>From a segment and back\<close>

lemma concat_reshape_rows: "0 < c \<Longrightarrow> concat (reshape_rows c xs) = xs"
proof (induction c xs rule: reshape_rows.induct)
  case (1 c xs)
  show ?case
  proof (cases "xs = []")
    case True
    then show ?thesis by (subst reshape_rows.simps) simp
  next
    case False
    with 1 have "concat (reshape_rows c (drop c xs)) = drop c xs"
      by simp
    with False 1(2) show ?thesis
      by (subst reshape_rows.simps) simp
  qed
qed

lemma reshape_rows_lengths:
  "0 < c \<Longrightarrow> length xs mod c = 0 \<Longrightarrow> list_all (\<lambda>row. length row = c) (reshape_rows c xs)"
proof (induction c xs rule: reshape_rows.induct)
  case (1 c xs)
  show ?case
  proof (cases "xs = []")
    case True
    then show ?thesis by (subst reshape_rows.simps) simp
  next
    case False
    from 1(3) have dvd: "c dvd length xs"
      by (simp add: dvd_eq_mod_eq_0)
    with False 1(2) have ge: "c \<le> length xs"
      by (auto dest: dvd_imp_le)
    from dvd ge have "c dvd (length xs - c)"
      by (simp add: dvd_diff_nat)
    then have "length (drop c xs) mod c = 0"
      by (simp add: dvd_eq_mod_eq_0)
    with 1 False have "list_all (\<lambda>row. length row = c) (reshape_rows c (drop c xs))"
      by simp
    with False 1(2) ge show ?thesis
      by (subst reshape_rows.simps) simp
  qed
qed

lemma astype_int16_inside:
  "- 32768 \<le> k \<Longrightarrow> k \<le> 32767 \<Longrightarrow> astype_int16 (of_int k / 32768 * 32768) = k"
  by (simp add: astype_int16_def signed_take_bit_int_eq_self)

text \<open>
  C8. For a 16-bit segment (samples within the 16-bit range, filling whole frames) the
  constructor succeeds, dividing each sample by \<open>2 ^ 15\<close>, and \<^verbatim>\<open>segment()\<close> on the
  buffer it makes gives the segment back: every sample is reproduced, with no error at
  all, which is within any quantisation error. (Scaling a 16-bit integer by a power of two
  is exact in binary floating point as well, so the exact arithmetic used here is the one
  of the floats.)
\<close>

theorem segment_round_trip:
  assumes width: "seg_sample_width seg = 2"
    and range: "\<forall>x \<in> set (seg_samples seg). - 32768 \<le> x \<and> x \<le> 32767"
    and frames: "0 < seg_channels seg" "length (seg_samples seg) mod seg_channels seg = 0"
  shows "\<exists>buf. AudioBuffer_init seg = Inr buf \<and> wf_buffer buf
               \<and> seg_samples (segment buf) = seg_samples seg \<and> segment buf = seg"
proof -
  let ?c = "seg_channels seg"
  let ?scaled = "map (\<lambda>x. real_of_int x / 32768) (seg_samples seg)"
  let ?buf = "\<lparr>sample_width = 2, frame_rate = seg_frame_rate seg, channels = ?c,
               data = reshape_rows ?c ?scaled\<rparr>"
  have init: "AudioBuffer_init seg = Inr ?buf"
    using width frames by (simp add: AudioBuffer_init_def Let_def)
  have wf: "wf_buffer ?buf"
    using frames reshape_rows_lengths [of ?c ?scaled] by (simp add: wf_buffer_def)
  have "concat (map (map (\<lambda>x. astype_int16 (x * 32768))) (reshape_rows ?c ?scaled))
          = map (\<lambda>x. astype_int16 (x * 32768)) (concat (reshape_rows ?c ?scaled))"
    by (simp only: map_concat)
  also have "\<dots> = map (\<lambda>x. astype_int16 (x * 32768)) ?scaled"
    using frames(1) by (simp only: concat_reshape_rows)
  also have "\<dots> = map (\<lambda>k. astype_int16 (of_int k / 32768 * 32768)) (seg_samples seg)"
    by (simp only: map_map comp_def)
  also have "\<dots> = seg_samples seg"
  proof (rule map_idI)
    fix k assume "k \<in> set (seg_samples seg)"
    with range have "- 32768 \<le> k" "k \<le> 32767" by auto
    then show "astype_int16 (of_int k / 32768 * 32768) = k"
      by (rule astype_int16_inside)
  qed
  finally have cc: "concat (map (map (\<lambda>x. astype_int16 (x * 32768))) (reshape_rows ?c ?scaled))
                      = seg_samples seg" .
  have samples: "seg_samples (segment ?buf) = seg_samples seg"
    by (simp only: segment_def audio_segment.simps audio_buffer.simps cc)
  have fields: "seg_sample_width (segment ?buf) = seg_sample_width seg"
    "seg_frame_rate (segment ?buf) = seg_frame_rate seg"
    "seg_channels (segment ?buf) = seg_channels seg"
    using width by (simp_all add: segment_def)
  have "segment ?buf = seg"
    using samples fields by (intro audio_segment.equality) simp_all
  with init wf samples show ?thesis by blast
qed

theorem segment_round_trip_witness:
  "seg_sample_width \<lparr>seg_sample_width = 2, seg_frame_rate = 1000, seg_channels = 2,
                      seg_samples = [16384, - 32768, 32767, 1]\<rparr> = 2
   \<and> length [16384, - 32768, 32767, 1 :: int] mod 2 = 0
   \<and> map_sum id segment
        (AudioBuffer_init \<lparr>seg_sample_width = 2, seg_frame_rate = 1000, seg_channels = 2,
                           seg_samples = [16384, - 32768, 32767, 1]\<rparr>)
      = Inr \<lparr>seg_sample_width = 2, seg_frame_rate = 1000, seg_channels = 2,
             seg_samples = [16384, - 32768, 32767, 1]\<rparr>"
proof -
  let ?s = "\<lparr>seg_sample_width = 2, seg_frame_rate = 1000, seg_channels = 2,
             seg_samples = [16384, - 32768, 32767, 1]\<rparr>"
  have width: "seg_sample_width ?s = 2"
    by simp
  have range: "\<forall>x \<in> set (seg_samples ?s). - 32768 \<le> x \<and> x \<le> 32767"
    by simp
  have frames: "0 < seg_channels ?s" "length (seg_samples ?s) mod seg_channels ?s = 0"
    by simp_all
  from segment_round_trip [OF width range frames]
  obtain buf where "AudioBuffer_init ?s = Inr buf" "segment buf = ?s"
    by blast
  then have "map_sum id segment (AudioBuffer_init ?s) = Inr ?s"
    by simp
  then show ?thesis
    by simp
qed

subsection \<open>Format and shape\<close>

lemma take_drop_glue: "take a (drop lo xs) @ drop (lo + a) xs = drop lo xs"
proof -
  have "take a (drop lo xs) @ drop a (drop lo xs) = drop lo xs"
    by (rule append_take_drop_id)
  then show ?thesis by (simp add: add.commute)
qed

lemma shape_slice_store:
  assumes "map length ys = map length (py_slice xs i j)"
  shows "map length (slice_store xs i j ys) = map length xs"
proof -
  let ?lo = "slice_index (length xs) i" and ?hi = "slice_index (length xs) j"
  have "map length (slice_store xs i j ys)
          = map length (take ?lo xs) @ map length (py_slice xs i j)
              @ map length (drop (?lo + (?hi - ?lo)) xs)"
    using assms by (simp add: slice_store_def Let_def)
  also have "\<dots> = map length (take ?lo xs @ (take (?hi - ?lo) (drop ?lo xs)
                                   @ drop (?lo + (?hi - ?lo)) xs))"
    by (simp add: py_slice_def Let_def)
  also have "\<dots> = map length xs"
    by (simp only: take_drop_glue append_take_drop_id)
  finally show ?thesis .
qed

lemma shape_inplace_scale: "map length (inplace_scale xs i j k) = map length xs"
  by (simp add: inplace_scale_def shape_slice_store comp_def)

lemma set_py_slice: "set (py_slice xs i j) \<subseteq> set xs"
  by (auto simp: py_slice_def Let_def dest: in_set_takeD in_set_dropD)


lemma stretch_one: "length xs = 1 \<Longrightarrow> concat (map (replicate n) xs) = replicate n (hd xs)"
  by (cases xs) simp_all


lemma length_stretch_row:
  assumes "c' = c \<or> c' = 1" "length row = c'"
  shows "length (stretch c c' row) = c"
proof (cases "c' = c")
  case True
  with assms(2) show ?thesis by (simp add: stretch_def)
next
  case False
  with assms have "length row = 1" by simp
  then have "concat (map (replicate c) row) = replicate c (hd row)"
    by (rule stretch_one)
  with False show ?thesis by (simp add: stretch_def)
qed

lemma stretch_rows:
  assumes "b = a \<or> b = 1" "length R = b"
  shows "length (stretch a b R) = a \<and> set (stretch a b R) \<subseteq> set R"
proof (cases "b = a")
  case True
  with assms(2) show ?thesis by (simp add: stretch_def)
next
  case False
  with assms have one: "length R = 1" by simp
  then have eq: "concat (map (replicate a) R) = replicate a (hd R)"
    by (rule stretch_one)
  from one have "hd R \<in> set R"
    by (cases R) simp_all
  with False eq show ?thesis
    by (auto simp: stretch_def)
qed

lemma broadcast_shape:
  assumes "broadcast a c (b, c', rows) = Inr rows'"
    and "length rows = b" "\<forall>row \<in> set rows. length row = c'"
  shows "length rows' = a \<and> (\<forall>row \<in> set rows'. length row = c)"
proof -
  let ?R = "map (stretch c c') rows"
  from assms(1) have ok: "b = a \<or> b = 1" "c' = c \<or> c' = 1"
    by (simp_all add: broadcast_def split: if_splits)
  with assms(1) have rows': "rows' = stretch a b ?R"
    by (simp add: broadcast_def)
  have cols: "\<forall>row \<in> set ?R. length row = c"
    using assms(3) ok(2) by (simp add: length_stretch_row)
  have "length ?R = b"
    using assms(2) by simp
  from stretch_rows [OF ok(1) this]
  have "length rows' = a" "set rows' \<subseteq> set ?R"
    unfolding rows' by simp_all
  with cols show ?thesis by blast
qed


lemma shape_inplace:
  assumes "inplace f c xs i j (b, c', rows) = Inr d"
    and "\<forall>row \<in> set xs. length row = c"
    and "length rows = b" "\<forall>row \<in> set rows. length row = c'"
  shows "map length d = map length xs"
proof -
  let ?view = "py_slice xs i j"
  from assms(1) obtain rows' where
    bc: "broadcast (length ?view) c (b, c', rows) = Inr rows'"
    and d: "d = slice_store xs i j (map2 (map2 f) ?view rows')"
    by (simp add: inplace_def Let_def split: sum.splits)
  from broadcast_shape [OF bc assms(3,4)]
  have rows': "length rows' = length ?view" "\<forall>row \<in> set rows'. length row = c"
    by simp_all
  have view: "\<forall>row \<in> set ?view. length row = c"
    using assms(2) set_py_slice [of xs i j] by blast
  have "map length (map2 (map2 f) ?view rows') = map length ?view"
  proof (rule nth_equalityI)
    show "length (map length (map2 (map2 f) ?view rows')) = length (map length ?view)"
      using rows'(1) by simp
  next
    fix k assume "k < length (map length (map2 (map2 f) ?view rows'))"
    then have k: "k < length ?view" "k < length rows'"
      using rows'(1) by simp_all
    then have "length (?view ! k) = c" "length (rows' ! k) = c"
      using view rows'(2) by (simp_all add: all_set_conv_all_nth)
    with k show "map length (map2 (map2 f) ?view rows') ! k = map length ?view ! k"
      by simp
  qed
  then show ?thesis
    unfolding d by (rule shape_slice_store)
qed

lemma same_refl [simp]: "same_format_and_shape b b"
  by (simp add: same_format_and_shape_def)

lemma wf_rows: "wf_buffer b \<Longrightarrow> \<forall>row \<in> set (data b). length row = channels b"
  by (simp add: wf_buffer_def list_all_iff)

lemma gain_profile_rows: "\<forall>row \<in> set (gain_profile c fg tg num). length row = c"
  by (auto simp: gain_profile_def)

lemma apply_fade_same:
  assumes "wf_buffer self"
  shows "same_format_and_shape self (final_state (apply_fade self to_gain from_gain sf ef))"
proof (cases "inplace (*) (channels self) (data self) sf ef
                 (nat (ef - sf), channels self,
                  gain_profile (channels self) from_gain to_gain (nat (ef - sf)))")
  case (Inl err)
  then show ?thesis
    by (simp add: apply_fade_def Let_def)
next
  case (Inr d)
  from shape_inplace [OF Inr wf_rows [OF assms] _ gain_profile_rows]
  have "map length d = map length (data self)"
    by simp
  with Inr show ?thesis
    by (simp add: apply_fade_def Let_def same_format_and_shape_def)
qed

lemma fade_same:
  assumes "wf_buffer self"
  shows "same_format_and_shape self
           (final_state (fade self to_gain from_gain start end' duration))"
  using apply_fade_same [OF assms]
  by (simp add: fade_def fade_ms_def split: sum.splits prod.splits)

lemma fade_out_same:
  assumes "wf_buffer self"
  shows "same_format_and_shape self (final_state (fade_out self duration))"
  using fade_same [OF assms]
  by (simp add: fade_out_def split: sum.splits)

lemma duck_same: "same_format_and_shape self (duck self s e gain)"
  by (simp add: same_format_and_shape_def duck_def shape_inplace_scale split: option.splits)

lemma duck_rows:
  assumes "wf_buffer self"
  shows "\<forall>row \<in> set (data (duck self s e gain)). length row = channels self"
proof -
  have "map length (data (duck self s e gain)) = map length (data self)"
    using duck_same [of self s e gain] by (simp add: same_format_and_shape_def)
  then have "set (map length (data (duck self s e gain))) = set (map length (data self))"
    by simp
  then have "length ` set (data (duck self s e gain)) = length ` set (data self)"
    by simp
  with wf_rows [OF assms] show ?thesis
    by (metis (no_types, lifting) image_iff)
qed

lemma mix_same:
  assumes wf: "wf_buffer self"
    and src: "case buf of None \<Rightarrow> True | Some b \<Rightarrow> wf_buffer b"
  shows "same_format_and_shape self (final_state (mix self buf position gain))"
proof -
  let ?start = "py_int (frame_count self (Some position))"
  let ?m = "case buf of None \<Rightarrow> frame_count self None | Some b \<Rightarrow> frame_count b None"
  let ?end = "py_int (min (of_int ?start + ?m) (frame_count self None))"
  let ?self1 = "duck self ?start ?end gain"
  let ?src = "case buf of None \<Rightarrow> ?self1 | Some b \<Rightarrow> b"
  let ?rows = "py_slice (data ?src) 0 (?end - ?start)"
  let ?res = "inplace (+) (channels self) (data ?self1) ?start ?end
                (length ?rows, channels ?src, ?rows)"
  have mix: "mix self buf position gain
               = (if ?end > ?start then
                    (case ?res of Inl err \<Rightarrow> Raised err ?self1
                     | Inr d \<Rightarrow> Returned (?self1\<lparr>data := d\<rparr>))
                  else Returned self)"
    by (simp only: mix_def Let_def)
  have s1: "same_format_and_shape self ?self1"
    by (rule duck_same)
  have src_rows: "\<forall>row \<in> set ?rows. length row = channels ?src"
  proof (cases buf)
    case None
    then show ?thesis
      using duck_rows [OF wf, of ?start ?end gain] set_py_slice [of "data ?self1" 0 "?end - ?start"]
      by auto
  next
    case (Some b)
    with src have "wf_buffer b" by simp
    from wf_rows [OF this] Some show ?thesis
      using set_py_slice [of "data b" 0 "?end - ?start"] by auto
  qed
  show ?thesis
  proof (cases "?end > ?start")
    case False
    with mix show ?thesis by simp
  next
    case True
    show ?thesis
    proof (cases ?res)
      case (Inl err)
      with mix True s1 show ?thesis by simp
    next
      case (Inr d)
      from shape_inplace [OF Inr duck_rows [OF wf] refl src_rows]
      have "map length d = map length (data ?self1)" .
      with s1 have "same_format_and_shape self (?self1\<lparr>data := d\<rparr>)"
        by (simp add: same_format_and_shape_def)
      with mix True Inr show ?thesis by simp
    qed
  qed
qed

lemma AudioBuffer_init_wf:
  assumes "AudioBuffer_init seg = Inr buf"
  shows "wf_buffer buf"
proof -
  let ?scaled = "map (\<lambda>x. real_of_int x / 2 ^ (seg_sample_width seg * 8 - 1)) (seg_samples seg)"
  from assms have c: "0 < seg_channels seg" "length ?scaled mod seg_channels seg = 0"
    and buf: "buf = \<lparr>sample_width = seg_sample_width seg, frame_rate = seg_frame_rate seg,
                     channels = seg_channels seg,
                     data = reshape_rows (seg_channels seg) ?scaled\<rparr>"
    by (simp_all add: AudioBuffer_init_def Let_def split: if_splits)
  from reshape_rows_lengths [OF c] show ?thesis
    by (simp add: buf wf_buffer_def c(1))
qed

lemma overlay_same:
  assumes wf: "wf_buffer self"
    and src: "case seg of Buffer b \<Rightarrow> wf_buffer b | _ \<Rightarrow> True"
  shows "same_format_and_shape self
           (final_state (overlay set_channels set_frame_rate self seg position gain))"
proof (cases seg)
  case (Segment sg)
  let ?sg1 = "if seg_channels sg \<noteq> channels self then set_channels sg (channels self) else sg"
  let ?sg2 = "if seg_frame_rate ?sg1 \<noteq> frame_rate self
              then set_frame_rate ?sg1 (frame_rate self) else ?sg1"
  have ov: "overlay set_channels set_frame_rate self seg position gain
              = (case AudioBuffer_init ?sg2 of
                   Inl err \<Rightarrow> Raised err self
                 | Inr buf \<Rightarrow> mix self (Some buf) position gain)"
    using Segment by (simp add: overlay_def Let_def)
  show ?thesis
  proof (cases "AudioBuffer_init ?sg2")
    case (Inl err)
    with ov show ?thesis by simp
  next
    case (Inr buf)
    then have "wf_buffer buf" by (rule AudioBuffer_init_wf)
    then have "same_format_and_shape self (final_state (mix self (Some buf) position gain))"
      using wf by (intro mix_same) simp_all
    with ov Inr show ?thesis by simp
  qed
next
  case (Buffer b)
  with src have "wf_buffer b" by simp
  then have "same_format_and_shape self (final_state (mix self (Some b) position gain))"
    using wf by (intro mix_same) simp_all
  with Buffer show ?thesis by (simp add: overlay_def)
next
  case Self
  have "same_format_and_shape self (final_state (mix self None position gain))"
    using wf by (intro mix_same) simp_all
  with Self show ?thesis by (simp add: overlay_def)
qed

text \<open>
  C10. Whatever \<^verbatim>\<open>fade\<close>, \<^verbatim>\<open>fade_in\<close>, \<^verbatim>\<open>fade_out\<close> or \<^verbatim>\<open>overlay\<close> does to
  a well-formed buffer, and whether it returns or raises, it leaves \<^verbatim>\<open>channels\<close>,
  \<^verbatim>\<open>frame_rate\<close> and \<^verbatim>\<open>sample_width\<close> as they were and the sample array with the
  same number of frames and the same number of channels in every frame; only sample
  values change. (A buffer that is overlaid is well-formed too, as every buffer the
  constructor makes.)
\<close>

theorem mutation_keeps_format_and_shape:
  assumes wf: "wf_buffer self"
    and src: "case seg of Buffer b \<Rightarrow> wf_buffer b | _ \<Rightarrow> True"
  shows "same_format_and_shape self
           (final_state (fade self to_gain from_gain start end' duration))
         \<and> same_format_and_shape self (final_state (fade_in self d))
         \<and> same_format_and_shape self (final_state (fade_out self d))
         \<and> same_format_and_shape self
             (final_state (overlay set_channels set_frame_rate self seg position gain))
         \<and> wf_buffer (final_state (fade self to_gain from_gain start end' duration))
         \<and> wf_buffer (final_state (fade_out self d))
         \<and> wf_buffer (final_state (overlay set_channels set_frame_rate self seg position gain))"
proof -
  have keep: "wf_buffer b" if "same_format_and_shape self b" for b
  proof -
    from that have "length ` set (data b) = length ` set (data self)"
      by (metis same_format_and_shape_def set_map)
    with wf_rows [OF wf] have "\<forall>row \<in> set (data b). length row = channels self"
      by (metis (no_types, lifting) image_iff)
    with that wf show ?thesis
      by (simp add: wf_buffer_def list_all_iff same_format_and_shape_def)
  qed
  have f: "same_format_and_shape self
             (final_state (fade self to_gain from_gain start end' duration))"
    using wf by (rule fade_same)
  have fi: "same_format_and_shape self (final_state (fade_in self d))"
    by (simp add: fade_in_def fade_def fill_blanks_def)
  have fo: "same_format_and_shape self (final_state (fade_out self d))"
    using wf by (rule fade_out_same)
  have ov: "same_format_and_shape self
             (final_state (overlay set_channels set_frame_rate self seg position gain))"
    using wf src by (rule overlay_same)
  show ?thesis
    using f fi fo ov keep by blast
qed

theorem mutation_keeps_format_and_shape_witness:
  "wf_buffer \<lparr>sample_width = 2, frame_rate = 1000, channels = 1, data = [[1], [2], [3]]\<rparr>
   \<and> wf_buffer \<lparr>sample_width = 2, frame_rate = 1000, channels = 1, data = [[10], [20]]\<rparr>
   \<and> same_format_and_shape
        \<lparr>sample_width = 2, frame_rate = 1000, channels = 1, data = [[1], [2], [3]]\<rparr>
        (final_state (fade
          \<lparr>sample_width = 2, frame_rate = 1000, channels = 1, data = [[1], [2], [3]]\<rparr>
          0 (- 20) (Some 1) (Some 3) (Some 2)))
   \<and> same_format_and_shape
        \<lparr>sample_width = 2, frame_rate = 1000, channels = 1, data = [[1], [2], [3]]\<rparr>
        (final_state (overlay (\<lambda>sg c. sg) (\<lambda>sg r. sg)
          \<lparr>sample_width = 2, frame_rate = 1000, channels = 1, data = [[1], [2], [3]]\<rparr>
          (Buffer \<lparr>sample_width = 2, frame_rate = 1000, channels = 1, data = [[10], [20]]\<rparr>)
          1 (Some (- 20))))"
proof -
  let ?self = "\<lparr>sample_width = 2, frame_rate = 1000, channels = 1, data = [[1], [2], [3]]\<rparr>"
  let ?b = "\<lparr>sample_width = 2, frame_rate = 1000, channels = 1, data = [[10], [20]]\<rparr>"
  have wf: "wf_buffer ?self" and wfb: "wf_buffer ?b"
    by (simp_all add: wf_buffer_def)
  have src: "case Buffer ?b of Buffer b \<Rightarrow> wf_buffer b | _ \<Rightarrow> True"
    using wfb by simp
  note keep = mutation_keeps_format_and_shape [OF wf src,
      where to_gain = 0 and from_gain = "- 20" and start = "Some 1" and end' = "Some 3"
        and duration = "Some 2" and set_channels = "\<lambda>sg c. sg" and set_frame_rate = "\<lambda>sg r. sg"
        and position = 1 and gain = "Some (- 20)"]
  from keep have a: "same_format_and_shape ?self
      (final_state (fade ?self 0 (- 20) (Some 1) (Some 3) (Some 2)))"
    by (rule conjunct1)
  from keep have b: "same_format_and_shape ?self
      (final_state (overlay (\<lambda>sg c. sg) (\<lambda>sg r. sg) ?self (Buffer ?b) 1 (Some (- 20))))"
    by blast
  show ?thesis
    by (intro conjI wf wfb a b)
qed

end
